theory Spec2Isabelle
  imports Complex_Main
begin

section \<open>Sales dashboard: monthly aggregation, growth and forecast pipeline\<close>

text \<open>
  A shallow embedding of the data pipeline of \<^verbatim>\<open>sales2.py\<close>: loading and date
  clean-up, the three sidebar filters, the two monthly aggregates (base and display), the
  percent-change column, the KPI block and the part of the insight block that computes
  values. Widgets, charts and markdown rendering are not modelled: the three filter
  selections are arguments, and the values handed to the page are the result.

  Numbers. The \<^verbatim>\<open>Total Amount\<close> column and the monthly sums are finite and are
  modelled by \<^typ>\<open>real\<close>. Results of pandas operations that can be \<^verbatim>\<open>NaN\<close> or
  infinite (the percent change, every mean, the standard deviation, and what is computed
  from them) are values of the type \<open>fval\<close> below.

  The growth column and the KPI block are given twice. In the first version arithmetic on
  finite values is exact. In the second, whose names end in \<open>64\<close>, every float
  operation is rounded to binary64. The sign of zero is modelled in neither.
\<close>

subsection \<open>Float results: finite values, infinities and NaN\<close>

datatype fval = Fin real | PInf | NInf | NaN

fun fneg :: "fval \<Rightarrow> fval" where
  "fneg (Fin a) = Fin (- a)"
| "fneg PInf = NInf"
| "fneg NInf = PInf"
| "fneg NaN = NaN"

fun fadd :: "fval \<Rightarrow> fval \<Rightarrow> fval" where
  "fadd NaN _ = NaN"
| "fadd _ NaN = NaN"
| "fadd (Fin a) (Fin b) = Fin (a + b)"
| "fadd PInf NInf = NaN"
| "fadd NInf PInf = NaN"
| "fadd PInf _ = PInf"
| "fadd _ PInf = PInf"
| "fadd NInf _ = NInf"
| "fadd _ NInf = NInf"

definition fsub :: "fval \<Rightarrow> fval \<Rightarrow> fval" where
  "fsub x y = fadd x (fneg y)"

text \<open>The sign of an infinity multiplied or divided by a finite number \<open>b\<close>.\<close>

definition signed_inf :: "bool \<Rightarrow> fval" where
  "signed_inf positive = (if positive then PInf else NInf)"

fun fmul :: "fval \<Rightarrow> fval \<Rightarrow> fval" where
  "fmul NaN _ = NaN"
| "fmul _ NaN = NaN"
| "fmul (Fin a) (Fin b) = Fin (a * b)"
| "fmul (Fin a) PInf = (if a = 0 then NaN else signed_inf (0 < a))"
| "fmul (Fin a) NInf = (if a = 0 then NaN else signed_inf (a < 0))"
| "fmul PInf (Fin b) = (if b = 0 then NaN else signed_inf (0 < b))"
| "fmul NInf (Fin b) = (if b = 0 then NaN else signed_inf (b < 0))"
| "fmul PInf PInf = PInf"
| "fmul NInf NInf = PInf"
| "fmul PInf NInf = NInf"
| "fmul NInf PInf = NInf"

fun fdiv :: "fval \<Rightarrow> fval \<Rightarrow> fval" where
  "fdiv NaN _ = NaN"
| "fdiv _ NaN = NaN"
| "fdiv (Fin a) (Fin b) =
     (if b \<noteq> 0 then Fin (a / b)
      else if 0 < a then PInf
      else if a < 0 then NInf
      else NaN)"
| "fdiv (Fin a) _ = Fin 0"
| "fdiv PInf (Fin b) = signed_inf (0 \<le> b)"
| "fdiv NInf (Fin b) = signed_inf (b < 0)"
| "fdiv _ _ = NaN"

text \<open>Comparisons with NaN are false, as in Python.\<close>

fun flt :: "fval \<Rightarrow> fval \<Rightarrow> bool" where
  "flt NaN _ = False"
| "flt _ NaN = False"
| "flt (Fin a) (Fin b) = (a < b)"
| "flt _ NInf = False"
| "flt PInf _ = False"
| "flt _ _ = True"

definition fgt :: "fval \<Rightarrow> fval \<Rightarrow> bool" where
  "fgt x y = flt y x"

text \<open>\<^verbatim>\<open>pd.notna\<close> on a float.\<close>

fun notna :: "fval \<Rightarrow> bool" where
  "notna NaN = False"
| "notna _ = True"

subsection \<open>Series statistics\<close>

text \<open>
  \<^verbatim>\<open>Series.mean()\<close> and \<^verbatim>\<open>Series.std()\<close> of a column of finite numbers:
  the mean of an empty column is NaN; the standard deviation is the sample one
  (\<^verbatim>\<open>ddof=1\<close>) and is NaN below two entries.
\<close>

definition mean :: "real list \<Rightarrow> fval" where
  "mean xs = (if xs = [] then NaN else Fin (sum_list xs / real (length xs)))"

definition std :: "real list \<Rightarrow> fval" where
  "std xs =
     (if length xs < 2 then NaN
      else let m = sum_list xs / real (length xs)
           in Fin (sqrt (sum_list (map (\<lambda>x. (x - m)\<^sup>2) xs) / real (length xs - 1))))"

text \<open>
  \<^verbatim>\<open>Series.mean()\<close> of a float column (\<^verbatim>\<open>skipna=True\<close>): NaN entries are
  left out of the sum and of the count; with none left the mean is NaN.
\<close>

definition fsum :: "fval list \<Rightarrow> fval" where
  "fsum vs = foldl fadd (Fin 0) vs"

definition mean_skipna :: "fval list \<Rightarrow> fval" where
  "mean_skipna vs =
     (let ws = filter notna vs
      in if ws = [] then NaN else fdiv (fsum ws) (Fin (real (length ws))))"

subsection \<open>Load data and feature engineering\<close>

record date =
  year :: int
  month :: nat
  day :: nat

text \<open>
  A row of the CSV after \<^verbatim>\<open>pd.to_datetime(..., dayfirst=True, errors='coerce')\<close>:
  \<open>None\<close> is \<^verbatim>\<open>NaT\<close>, the value of a date that did not parse.
\<close>

record raw_row =
  raw_Date :: "date option"
  raw_Product_Category :: string
  raw_Gender :: string
  raw_Total_Amount :: real

record row =
  Date :: date
  Product_Category :: string
  Gender :: string
  Total_Amount :: real

text \<open>\<^verbatim>\<open>df.dropna(subset=['Date'])\<close>.\<close>

definition dropna_Date :: "raw_row list \<Rightarrow> row list" where
  "dropna_Date raw =
     List.map_filter
       (\<lambda>r. case raw_Date r of
               None \<Rightarrow> None
             | Some d \<Rightarrow> Some \<lparr>Date = d, Product_Category = raw_Product_Category r,
                               Gender = raw_Gender r, Total_Amount = raw_Total_Amount r\<rparr>)
       raw"

text \<open>
  \<^verbatim>\<open>Month_Period\<close> is the first day of the date's month. It is represented by the
  ordinal pandas gives a monthly period: the number of months since January 1970. The
  order of ordinals is the chronological order, and one \<^verbatim>\<open>DateOffset(months=1)\<close>
  is one unit.
\<close>

type_synonym month_period = int

definition Month_Period :: "row \<Rightarrow> month_period" where
  "Month_Period r = (year (Date r) - 1970) * 12 + (int (month (Date r)) - 1)"

definition period_year :: "month_period \<Rightarrow> int" where
  "period_year p = 1970 + p div 12"

definition month_names :: "string list" where
  "month_names = [''January'', ''February'', ''March'', ''April'', ''May'', ''June'',
                  ''July'', ''August'', ''September'', ''October'', ''November'', ''December'']"

definition month_abbrs :: "string list" where
  "month_abbrs = map (take 3) month_names"

fun digits :: "nat \<Rightarrow> string" where
  "digits n =
     (if n < 10 then [char_of (48 + n)]
      else digits (n div 10) @ [char_of (48 + n mod 10)])"

declare digits.simps [simp del]

text \<open>\<^verbatim>\<open>strftime\<close> with the formats \<^verbatim>\<open>%B\<close>, \<^verbatim>\<open>%b %Y\<close> and \<^verbatim>\<open>%B %Y\<close>.\<close>

definition strftime_B :: "month_period \<Rightarrow> string" where
  "strftime_B p = month_names ! nat (p mod 12)"

definition strftime_b_Y :: "month_period \<Rightarrow> string" where
  "strftime_b_Y p = month_abbrs ! nat (p mod 12) @ '' '' @ digits (nat (period_year p))"

definition strftime_B_Y :: "month_period \<Rightarrow> string" where
  "strftime_B_Y p = month_names ! nat (p mod 12) @ '' '' @ digits (nat (period_year p))"

definition Month_Name :: "row \<Rightarrow> string" where
  "Month_Name r = strftime_B (Month_Period r)"

subsection \<open>Filtered data\<close>

definition isin :: "'a \<Rightarrow> 'a list \<Rightarrow> bool" where
  "isin x xs = (x \<in> set xs)"

definition filtered_df :: "row list \<Rightarrow> string list \<Rightarrow> string list \<Rightarrow> string list \<Rightarrow> row list" where
  "filtered_df df category_filter gender_filter month_filter =
     filter (\<lambda>r. isin (Product_Category r) category_filter \<and>
                 isin (Gender r) gender_filter \<and>
                 isin (Month_Name r) month_filter) df"

subsection \<open>Monthly aggregation\<close>

text \<open>
  \<^verbatim>\<open>.groupby('Month_Period')['Total Amount'].sum().reset_index()\<close>: one row for each
  period that occurs, in ascending order of the periods, with the sum of the amounts
  of the period. Then \<^verbatim>\<open>.sort_values('Month_Period')\<close>.
\<close>

definition month_total :: "row list \<Rightarrow> month_period \<Rightarrow> real" where
  "month_total rows p = sum_list (map Total_Amount (filter (\<lambda>r. Month_Period r = p) rows))"

definition groupby_sum :: "row list \<Rightarrow> (month_period \<times> real) list" where
  "groupby_sum rows =
     map (\<lambda>p. (p, month_total rows p)) (sort (remdups (map Month_Period rows)))"

definition sort_values :: "(month_period \<times> real) list \<Rightarrow> (month_period \<times> real) list" where
  "sort_values t = sort_key fst t"

definition aggregate :: "row list \<Rightarrow> (month_period \<times> real) list" where
  "aggregate rows = sort_values (groupby_sum rows)"

subsection \<open>Monthly base (for growth)\<close>

text \<open>
  \<^verbatim>\<open>Series.pct_change()\<close>: NaN in the first row, then \<^verbatim>\<open>x / previous - 1\<close> in
  float arithmetic, where a division by zero gives an infinity or NaN.
\<close>

fun pct_change_from :: "real \<Rightarrow> real list \<Rightarrow> fval list" where
  "pct_change_from prev [] = []"
| "pct_change_from prev (x # xs) =
     fsub (fdiv (Fin x) (Fin prev)) (Fin 1) # pct_change_from x xs"

fun pct_change :: "real list \<Rightarrow> fval list" where
  "pct_change [] = []"
| "pct_change (x # xs) = NaN # pct_change_from x xs"

record base_row =
  base_Month_Period :: month_period
  base_Total_Amount :: real
  Growth_Rate :: fval

definition with_growth :: "(month_period \<times> real) list \<Rightarrow> base_row list" where
  "with_growth t =
     map (\<lambda>((p, a), g). \<lparr>base_Month_Period = p, base_Total_Amount = a, Growth_Rate = g\<rparr>)
         (zip t (pct_change (map snd t)))"

text \<open>The rows the base series is computed from: the month filter is not applied.\<close>

definition base_df :: "row list \<Rightarrow> string list \<Rightarrow> string list \<Rightarrow> row list" where
  "base_df df category_filter gender_filter =
     filter (\<lambda>r. isin (Product_Category r) category_filter \<and>
                 isin (Gender r) gender_filter) df"

definition monthly_base :: "row list \<Rightarrow> string list \<Rightarrow> string list \<Rightarrow> base_row list" where
  "monthly_base df category_filter gender_filter =
     with_growth (aggregate (base_df df category_filter gender_filter))"

subsection \<open>Monthly sales (display)\<close>

definition monthly_sales ::
  "row list \<Rightarrow> string list \<Rightarrow> string list \<Rightarrow> string list \<Rightarrow> (month_period \<times> real) list" where
  "monthly_sales df category_filter gender_filter month_filter =
     aggregate (filtered_df df category_filter gender_filter month_filter)"

subsection \<open>KPI calculations\<close>

record kpis =
  total_revenue :: real
  avg_monthly_revenue :: fval
  previous_month_revenue :: real
  next_month_revenue :: fval
  expected_growth :: fval
  previous_month_label :: string
  next_month_label :: string

definition kpi_calculations :: "(month_period \<times> real) list \<Rightarrow> base_row list \<Rightarrow> kpis" where
  "kpi_calculations sales base =
     (let k0 = \<lparr>total_revenue = sum_list (map snd sales),
                avg_monthly_revenue = mean (map snd sales),
                previous_month_revenue = 0,
                next_month_revenue = Fin 0,
                expected_growth = Fin 0,
                previous_month_label = ''N/A'',
                next_month_label = ''N/A''\<rparr>
      in if sales \<noteq> [] then
           let selected_month = fst (last sales);
               prev_month = selected_month - 1;
               prev_row = filter (\<lambda>b. base_Month_Period b = prev_month) base;
               curr_row = filter (\<lambda>b. base_Month_Period b = selected_month) base
           in if prev_row \<noteq> [] \<and> curr_row \<noteq> [] then
                let prev_rev = base_Total_Amount (hd prev_row);
                    growth_rate = Growth_Rate (hd curr_row);
                    k1 = k0\<lparr>previous_month_revenue := prev_rev\<rparr>;
                    k2 = (if notna growth_rate
                          then k1\<lparr>next_month_revenue := fmul (Fin prev_rev) (fadd (Fin 1) growth_rate),
                                  expected_growth := fmul growth_rate (Fin 100)\<rparr>
                          else k1)
                in k2\<lparr>previous_month_label := strftime_B_Y prev_month,
                       next_month_label := strftime_B_Y (selected_month + 1)\<rparr>
              else k0
         else k0)"

subsection \<open>Insights\<close>

record insights =
  revenue_std :: fval
  avg_growth_rate :: fval
  trend :: string
  stability :: string

definition insights_of :: "(month_period \<times> real) list \<Rightarrow> base_row list \<Rightarrow> insights option" where
  "insights_of sales base =
     (if 2 \<le> length sales then
        let sd = std (map snd sales);
            agr = fmul (mean_skipna (map Growth_Rate base)) (Fin 100)
        in Some \<lparr>revenue_std = sd,
                 avg_growth_rate = agr,
                 trend = (if fgt agr (Fin 0) then ''positive'' else ''negative''),
                 stability = (if flt sd (mean (map snd sales)) then ''stable'' else ''fluctuating'')\<rparr>
      else None)"

subsection \<open>The page\<close>

definition dashboard_kpis ::
  "row list \<Rightarrow> string list \<Rightarrow> string list \<Rightarrow> string list \<Rightarrow> kpis" where
  "dashboard_kpis df category_filter gender_filter month_filter =
     kpi_calculations (monthly_sales df category_filter gender_filter month_filter)
                      (monthly_base df category_filter gender_filter)"

definition dashboard_insights ::
  "row list \<Rightarrow> string list \<Rightarrow> string list \<Rightarrow> string list \<Rightarrow> insights option" where
  "dashboard_insights df category_filter gender_filter month_filter =
     insights_of (monthly_sales df category_filter gender_filter month_filter)
                 (monthly_base df category_filter gender_filter)"

subsection \<open>Example data\<close>

text \<open>
  The series of the specification's worked example: January 1000, February 1200 and
  March 900 in 2023, one transaction each, all of one category and gender. The second
  table has no February, the third has two equal months, the fourth has 3 then 1.
\<close>

definition example_row :: "int \<Rightarrow> nat \<Rightarrow> real \<Rightarrow> row" where
  "example_row y m a =
     \<lparr>Date = \<lparr>year = y, month = m, day = 1\<rparr>, Product_Category = ''Beauty'',
      Gender = ''Male'', Total_Amount = a\<rparr>"

definition example_df :: "row list" where
  "example_df = [example_row 2023 1 1000, example_row 2023 2 1200, example_row 2023 3 900]"

definition example_gap_df :: "row list" where
  "example_gap_df = [example_row 2023 1 1000, example_row 2023 3 900]"

definition example_flat_df :: "row list" where
  "example_flat_df = [example_row 2023 1 1000, example_row 2023 2 1000]"

definition example_thirds_df :: "row list" where
  "example_thirds_df = [example_row 2023 1 3, example_row 2023 2 1]"

subsection \<open>Binary64 rounding\<close>

text \<open>
  A Python float and an entry of a \<^verbatim>\<open>float64\<close> column are IEEE 754 binary64
  numbers: 53 significant bits, binary exponents from -1022 to 1023, and subnormal numbers
  below. An arithmetic operation returns its exact result rounded to the nearest binary64
  number, a tie going to the even significand, and an infinity when the rounded result has
  magnitude \<open>2 ^ 1024\<close> or more.

  \<open>bit_length n\<close> is the number of binary digits of \<open>n\<close>, and \<open>exponent x\<close> the integer
  \<open>e\<close> with \<open>2 ^ e \<le> \<bar>x\<bar> < 2 ^ (e + 1)\<close>, for \<open>x\<close> other than zero.
\<close>

fun bit_length :: "nat \<Rightarrow> nat" where
  "bit_length n = (if n = 0 then 0 else Suc (bit_length (n div 2)))"

declare bit_length.simps [simp del]

definition exponent :: "real \<Rightarrow> int" where
  "exponent x =
     (if 1 \<le> \<bar>x\<bar> then int (bit_length (nat \<lfloor>\<bar>x\<bar>\<rfloor>)) - 1
      else - int (bit_length (nat (\<lceil>1 / \<bar>x\<bar>\<rceil> - 1))))"

definition round_half_even :: "real \<Rightarrow> int" where
  "round_half_even q =
     (let n = \<lfloor>q\<rfloor>; r = q - of_int n
      in if r < 1 / 2 then n
         else if 1 / 2 < r then n + 1
         else if even n then n else n + 1)"

definition binary64 :: "real \<Rightarrow> fval" where
  "binary64 x =
     (if x = 0 then Fin 0
      else let e = max (exponent x) (- 1022);
               ulp = 2 powi (e - 52);
               y = of_int (round_half_even (x / ulp)) * ulp
           in if 2 powi 1024 \<le> \<bar>y\<bar> then signed_inf (0 < x) else Fin y)"

fun round_fval :: "fval \<Rightarrow> fval" where
  "round_fval (Fin x) = binary64 x"
| "round_fval v = v"

text \<open>The four operations on floats: the exact result, rounded.\<close>

definition fadd64 :: "fval \<Rightarrow> fval \<Rightarrow> fval" where
  "fadd64 x y = round_fval (fadd x y)"

definition fsub64 :: "fval \<Rightarrow> fval \<Rightarrow> fval" where
  "fsub64 x y = round_fval (fsub x y)"

definition fmul64 :: "fval \<Rightarrow> fval \<Rightarrow> fval" where
  "fmul64 x y = round_fval (fmul x y)"

definition fdiv64 :: "fval \<Rightarrow> fval \<Rightarrow> fval" where
  "fdiv64 x y = round_fval (fdiv x y)"

subsection \<open>Growth column and KPI block in binary64\<close>

text \<open>
  \<^verbatim>\<open>pct_change()\<close> divides each sum by the one before it and subtracts one, and
  the KPI block computes \<^verbatim>\<open>previous_month_revenue * (1 + growth_rate)\<close> and
  \<^verbatim>\<open>growth_rate * 100\<close>; each of these operations rounds. The monthly sums are
  those of the aggregation above. They are the sums pandas computes when the amounts are
  whole numbers, none negative, with a total below \<open>2 ^ 53\<close>: every partial sum is then
  an integer that both \<^verbatim>\<open>int64\<close> and binary64 hold exactly.
\<close>

definition whole_amounts :: "row list \<Rightarrow> bool" where
  "whole_amounts rows \<longleftrightarrow>
     (\<forall>r\<in>set rows. 0 \<le> Total_Amount r \<and> of_int \<lfloor>Total_Amount r\<rfloor> = Total_Amount r) \<and>
     sum_list (map Total_Amount rows) < 2 ^ 53"

fun pct_change_from64 :: "real \<Rightarrow> real list \<Rightarrow> fval list" where
  "pct_change_from64 prev [] = []"
| "pct_change_from64 prev (x # xs) =
     fsub64 (fdiv64 (Fin x) (Fin prev)) (Fin 1) # pct_change_from64 x xs"

fun pct_change64 :: "real list \<Rightarrow> fval list" where
  "pct_change64 [] = []"
| "pct_change64 (x # xs) = NaN # pct_change_from64 x xs"

definition with_growth64 :: "(month_period \<times> real) list \<Rightarrow> base_row list" where
  "with_growth64 t =
     map (\<lambda>((p, a), g). \<lparr>base_Month_Period = p, base_Total_Amount = a, Growth_Rate = g\<rparr>)
         (zip t (pct_change64 (map snd t)))"

definition monthly_base64 :: "row list \<Rightarrow> string list \<Rightarrow> string list \<Rightarrow> base_row list" where
  "monthly_base64 df category_filter gender_filter =
     with_growth64 (aggregate (base_df df category_filter gender_filter))"

definition kpi_calculations64 :: "(month_period \<times> real) list \<Rightarrow> base_row list \<Rightarrow> kpis" where
  "kpi_calculations64 sales base =
     (let k0 = \<lparr>total_revenue = sum_list (map snd sales),
                avg_monthly_revenue = round_fval (mean (map snd sales)),
                previous_month_revenue = 0,
                next_month_revenue = Fin 0,
                expected_growth = Fin 0,
                previous_month_label = ''N/A'',
                next_month_label = ''N/A''\<rparr>
      in if sales \<noteq> [] then
           let selected_month = fst (last sales);
               prev_month = selected_month - 1;
               prev_row = filter (\<lambda>b. base_Month_Period b = prev_month) base;
               curr_row = filter (\<lambda>b. base_Month_Period b = selected_month) base
           in if prev_row \<noteq> [] \<and> curr_row \<noteq> [] then
                let prev_rev = base_Total_Amount (hd prev_row);
                    growth_rate = Growth_Rate (hd curr_row);
                    k1 = k0\<lparr>previous_month_revenue := prev_rev\<rparr>;
                    k2 = (if notna growth_rate
                          then k1\<lparr>next_month_revenue := fmul64 (Fin prev_rev) (fadd64 (Fin 1) growth_rate),
                                  expected_growth := fmul64 growth_rate (Fin 100)\<rparr>
                          else k1)
                in k2\<lparr>previous_month_label := strftime_B_Y prev_month,
                       next_month_label := strftime_B_Y (selected_month + 1)\<rparr>
              else k0
         else k0)"

definition dashboard_kpis64 ::
  "row list \<Rightarrow> string list \<Rightarrow> string list \<Rightarrow> string list \<Rightarrow> kpis" where
  "dashboard_kpis64 df category_filter gender_filter month_filter =
     kpi_calculations64 (monthly_sales df category_filter gender_filter month_filter)
                        (monthly_base64 df category_filter gender_filter)"

subsection \<open>Variance of a series\<close>

text \<open>
  The two variances the specification tells apart: the sample variance divides the sum of
  the squared deviations from the mean by \<open>n - 1\<close>, the population variance by \<open>n\<close>.
\<close>

definition arithmetic_mean :: "real list \<Rightarrow> real" where
  "arithmetic_mean ys = sum_list ys / real (length ys)"

definition sample_variance :: "real list \<Rightarrow> real" where
  "sample_variance xs =
     sum_list (map (\<lambda>x. (x - arithmetic_mean xs)\<^sup>2) xs) / (real (length xs) - 1)"

definition population_variance :: "real list \<Rightarrow> real" where
  "population_variance xs =
     sum_list (map (\<lambda>x. (x - arithmetic_mean xs)\<^sup>2) xs) / real (length xs)"

section \<open>Properties of the aggregation\<close>

lemma groupby_sum_keys: "map fst (groupby_sum rows) = sort (remdups (map Month_Period rows))"
  by (simp add: groupby_sum_def comp_def)

text \<open>The grouped table is already in order, so sorting it again changes nothing.\<close>

lemma aggregate_eq_groupby: "aggregate rows = groupby_sum rows"
  unfolding aggregate_def sort_values_def
  by (rule sort_key_id_if_sorted) (simp add: groupby_sum_keys)

lemma aggregate_keys: "map fst (aggregate rows) = sort (remdups (map Month_Period rows))"
  by (simp add: aggregate_eq_groupby groupby_sum_keys)

lemma aggregate_strict_sorted: "sorted_wrt (<) (map fst (aggregate rows))"
  by (simp add: aggregate_keys strict_sorted_iff)

lemma aggregate_key_set: "fst ` set (aggregate rows) = Month_Period ` set rows"
proof -
  have "set (map fst (aggregate rows)) = Month_Period ` set rows"
    by (simp add: aggregate_keys)
  then show ?thesis by simp
qed

lemma aggregate_Nil_iff: "aggregate rows = [] \<longleftrightarrow> rows = []"
  using aggregate_key_set [of rows] by auto

lemma aggregate_entry: "(p, a) \<in> set (aggregate rows) \<Longrightarrow> a = month_total rows p"
  by (auto simp: aggregate_eq_groupby groupby_sum_def)

lemma aggregate_member:
  "p \<in> Month_Period ` set rows \<Longrightarrow> (p, month_total rows p) \<in> set (aggregate rows)"
  by (auto simp: aggregate_eq_groupby groupby_sum_def)

section \<open>Properties of the growth column\<close>

lemma length_pct_change_from: "length (pct_change_from a xs) = length xs"
  by (induction xs arbitrary: a) simp_all

lemma length_pct_change: "length (pct_change xs) = length xs"
  by (cases xs) (simp_all add: length_pct_change_from)

lemma with_growth_periods: "map base_Month_Period (with_growth t) = map fst t"
  unfolding with_growth_def
  by (rule nth_equalityI) (simp_all add: length_pct_change split_beta)

lemma with_growth_amounts: "map base_Total_Amount (with_growth t) = map snd t"
  unfolding with_growth_def
  by (rule nth_equalityI) (simp_all add: length_pct_change split_beta)

lemma with_growth_rates: "map Growth_Rate (with_growth t) = pct_change (map snd t)"
  unfolding with_growth_def
  by (rule nth_equalityI) (simp_all add: length_pct_change split_beta)

lemma filter_unique_key:
  "distinct (map f xs) \<Longrightarrow> x \<in> set xs \<Longrightarrow> filter (\<lambda>y. f y = f x) xs = [x]"
proof (induction xs)
  case Nil
  then show ?case by simp
next
  case (Cons y ys)
  show ?case
  proof (cases "x = y")
    case True
    with Cons.prems have "\<forall>z\<in>set ys. f z \<noteq> f x" by (force simp: image_iff)
    then have "filter (\<lambda>z. f z = f x) ys = []" by (simp add: filter_empty_conv)
    with True show ?thesis by simp
  next
    case False
    with Cons.prems have "x \<in> set ys" and "f y \<noteq> f x" and "distinct (map f ys)" by auto
    with Cons.IH show ?thesis by simp
  qed
qed

text \<open>
  In a table with strictly ascending periods that holds both \<open>p - 1\<close> and \<open>p\<close>, the row
  before \<open>p\<close> is the row of \<open>p - 1\<close>: the percent change at \<open>p\<close> is taken against it.
\<close>

lemma growth_from_adjacent:
  fixes t :: "(month_period \<times> real) list"
  shows "sorted_wrt (<) (q # map fst t) \<Longrightarrow> (p - 1, a) \<in> set ((q, a0) # t) \<Longrightarrow>
         (p, b) \<in> set t \<Longrightarrow>
         ((p, b), fsub (fdiv (Fin b) (Fin a)) (Fin 1))
           \<in> set (zip t (pct_change_from a0 (map snd t)))"
proof (induction t arbitrary: q a0)
  case Nil
  then show ?case by simp
next
  case (Cons e t)
  obtain q' b' where e: "e = (q', b')" by (cases e)
  from Cons.prems(1) e have qq': "q < q'" and above: "\<forall>k\<in>fst ` set t. q' < k"
    and sorted': "sorted_wrt (<) (q' # map fst t)" by auto
  show ?case
  proof (cases "(p, b) = e")
    case True
    with e have pq: "p = q'" and bb: "b = b'" by auto
    have "(p - 1, a) = (q, a0)"
    proof (rule ccontr)
      assume "(p - 1, a) \<noteq> (q, a0)"
      with Cons.prems(2) e have "(p - 1, a) = (q', b') \<or> (p - 1, a) \<in> set t" by auto
      then show False
      proof
        assume "(p - 1, a) = (q', b')" with pq show False by simp
      next
        assume "(p - 1, a) \<in> set t"
        then have "p - 1 \<in> fst ` set t" by force
        with above pq show False by auto
      qed
    qed
    then have "a = a0" by simp
    with e pq bb show ?thesis by simp
  next
    case False
    with Cons.prems(3) have pt: "(p, b) \<in> set t" by simp
    then have "p \<in> fst ` set t" by force
    with above have q'p: "q' < p" by auto
    have "(p - 1, a) \<noteq> (q, a0)"
    proof
      assume "(p - 1, a) = (q, a0)"
      with qq' q'p show False by simp
    qed
    with Cons.prems(2) e have "(p - 1, a) \<in> set ((q', b') # t)" by auto
    from Cons.IH [OF sorted' this pt]
    have "((p, b), fsub (fdiv (Fin b) (Fin a)) (Fin 1))
            \<in> set (zip t (pct_change_from b' (map snd t)))" .
    with e show ?thesis by simp
  qed
qed

lemma with_growth_adjacent:
  assumes "sorted_wrt (<) (map fst t)" and "(p - 1, a) \<in> set t" and "(p, b) \<in> set t"
  shows "\<lparr>base_Month_Period = p, base_Total_Amount = b,
          Growth_Rate = fsub (fdiv (Fin b) (Fin a)) (Fin 1)\<rparr> \<in> set (with_growth t)"
proof (cases t)
  case Nil
  with assms show ?thesis by simp
next
  case (Cons e t')
  obtain q a0 where e: "e = (q, a0)" by (cases e)
  from assms(1) Cons e have sorted': "sorted_wrt (<) (q # map fst t')"
    and above: "\<forall>k\<in>fst ` set t'. q < k" by auto
  have "(p, b) \<noteq> (q, a0)"
  proof
    assume eq: "(p, b) = (q, a0)"
    from assms(2) Cons e have "(p - 1, a) = (q, a0) \<or> (p - 1, a) \<in> set t'" by auto
    then show False
    proof
      assume "(p - 1, a) = (q, a0)" with eq show False by simp
    next
      assume "(p - 1, a) \<in> set t'"
      then have "p - 1 \<in> fst ` set t'" by force
      with above eq show False by auto
    qed
  qed
  with assms(3) Cons e have pt: "(p, b) \<in> set t'" by auto
  from assms(2) Cons e have "(p - 1, a) \<in> set ((q, a0) # t')" by simp
  from growth_from_adjacent [OF sorted' this pt]
  have "((p, b), fsub (fdiv (Fin b) (Fin a)) (Fin 1))
          \<in> set (zip t' (pct_change_from a0 (map snd t')))" .
  then have "((p, b), fsub (fdiv (Fin b) (Fin a)) (Fin 1))
               \<in> set (zip t (pct_change (map snd t)))"
    using Cons e by simp
  then show ?thesis
    unfolding with_growth_def by force
qed

section \<open>Looking a period up in the base series\<close>

lemma base_lookup_absent:
  assumes "p \<notin> Month_Period ` set rows"
  shows "filter (\<lambda>b. base_Month_Period b = p) (with_growth (aggregate rows)) = []"
proof -
  have "set (map base_Month_Period (with_growth (aggregate rows))) = Month_Period ` set rows"
    by (simp only: with_growth_periods set_map aggregate_key_set)
  with assms have "\<forall>b\<in>set (with_growth (aggregate rows)). base_Month_Period b \<noteq> p"
    by auto
  then show ?thesis by (simp add: filter_empty_conv)
qed

lemma with_growth_member:
  assumes "(p, a) \<in> set t"
  shows "\<exists>g. \<lparr>base_Month_Period = p, base_Total_Amount = a, Growth_Rate = g\<rparr> \<in> set (with_growth t)"
proof -
  from assms obtain i where i: "i < length t" and ti: "t ! i = (p, a)"
    by (auto simp: in_set_conv_nth)
  let ?z = "zip t (pct_change (map snd t))"
  from i have "i < length ?z" by (simp add: length_pct_change)
  then have "?z ! i \<in> set ?z" by (rule nth_mem)
  moreover from i ti have "?z ! i = ((p, a), pct_change (map snd t) ! i)"
    by (simp add: length_pct_change)
  ultimately have "((p, a), pct_change (map snd t) ! i) \<in> set ?z" by simp
  then have "\<lparr>base_Month_Period = p, base_Total_Amount = a,
               Growth_Rate = pct_change (map snd t) ! i\<rparr> \<in> set (with_growth t)"
    unfolding with_growth_def by force
  then show ?thesis ..
qed

lemma base_lookup_single:
  assumes "x \<in> set (with_growth (aggregate rows))"
  shows "filter (\<lambda>b. base_Month_Period b = base_Month_Period x) (with_growth (aggregate rows)) = [x]"
proof (rule filter_unique_key [OF _ assms])
  have "distinct (map fst (aggregate rows))"
    using aggregate_strict_sorted [of rows] by (simp add: strict_sorted_iff)
  then show "distinct (map base_Month_Period (with_growth (aggregate rows)))"
    by (simp only: with_growth_periods)
qed

lemma base_lookup_present:
  assumes "p \<in> Month_Period ` set rows"
  shows "\<exists>g. filter (\<lambda>b. base_Month_Period b = p) (with_growth (aggregate rows))
              = [\<lparr>base_Month_Period = p, base_Total_Amount = month_total rows p, Growth_Rate = g\<rparr>]"
proof -
  from aggregate_member [OF assms] with_growth_member
  obtain g where "\<lparr>base_Month_Period = p, base_Total_Amount = month_total rows p, Growth_Rate = g\<rparr>
                    \<in> set (with_growth (aggregate rows))" by blast
  from base_lookup_single [OF this] show ?thesis by auto
qed

lemma base_lookup_adjacent:
  assumes "p - 1 \<in> Month_Period ` set rows" and "p \<in> Month_Period ` set rows"
  shows "filter (\<lambda>b. base_Month_Period b = p) (with_growth (aggregate rows))
           = [\<lparr>base_Month_Period = p, base_Total_Amount = month_total rows p,
               Growth_Rate = fsub (fdiv (Fin (month_total rows p)) (Fin (month_total rows (p - 1)))) (Fin 1)\<rparr>]"
proof -
  from with_growth_adjacent [OF aggregate_strict_sorted aggregate_member [OF assms(1)] aggregate_member [OF assms(2)]]
  have "\<lparr>base_Month_Period = p, base_Total_Amount = month_total rows p,
          Growth_Rate = fsub (fdiv (Fin (month_total rows p)) (Fin (month_total rows (p - 1)))) (Fin 1)\<rparr>
          \<in> set (with_growth (aggregate rows))" .
  from base_lookup_single [OF this] show ?thesis by simp
qed

section \<open>Display series and base series\<close>

lemma base_period_set:
  "set (map base_Month_Period (monthly_base df cf gf)) = Month_Period ` set (base_df df cf gf)"
  unfolding monthly_base_def by (simp only: with_growth_periods set_map aggregate_key_set)

lemma filtered_subset_base: "set (filtered_df df cf gf mf) \<subseteq> set (base_df df cf gf)"
  by (auto simp: filtered_df_def base_df_def)

lemma selected_month_in_display:
  assumes "monthly_sales df cf gf mf \<noteq> []"
  shows "fst (last (monthly_sales df cf gf mf)) \<in> Month_Period ` set (filtered_df df cf gf mf)"
proof -
  from assms have "last (monthly_sales df cf gf mf) \<in> set (monthly_sales df cf gf mf)"
    by (rule last_in_set)
  then have "fst (last (monthly_sales df cf gf mf)) \<in> fst ` set (monthly_sales df cf gf mf)"
    by (rule imageI)
  then show ?thesis
    unfolding monthly_sales_def by (simp only: aggregate_key_set)
qed

lemma selected_month_in_base_df:
  assumes "monthly_sales df cf gf mf \<noteq> []"
  shows "fst (last (monthly_sales df cf gf mf)) \<in> Month_Period ` set (base_df df cf gf)"
  using selected_month_in_display [OF assms] filtered_subset_base [of df cf gf mf] by blast

lemma base_lookup_nonempty_iff:
  "filter (\<lambda>b. base_Month_Period b = p) (monthly_base df cf gf) \<noteq> [] \<longleftrightarrow>
   p \<in> Month_Period ` set (base_df df cf gf)"
proof -
  have "filter (\<lambda>b. base_Month_Period b = p) (monthly_base df cf gf) \<noteq> [] \<longleftrightarrow>
        p \<in> set (map base_Month_Period (monthly_base df cf gf))"
    by (auto simp: filter_empty_conv)
  then show ?thesis by (simp only: base_period_set)
qed

lemma prev_row_amount:
  assumes "p \<in> Month_Period ` set (base_df df cf gf)"
  shows "base_Total_Amount (hd (filter (\<lambda>b. base_Month_Period b = p) (monthly_base df cf gf)))
           = month_total (base_df df cf gf) p"
  using base_lookup_present [OF assms] unfolding monthly_base_def by auto

lemma curr_row_growth:
  assumes "p - 1 \<in> Month_Period ` set (base_df df cf gf)"
    and "p \<in> Month_Period ` set (base_df df cf gf)"
  shows "Growth_Rate (hd (filter (\<lambda>b. base_Month_Period b = p) (monthly_base df cf gf)))
           = fsub (fdiv (Fin (month_total (base_df df cf gf) p))
                        (Fin (month_total (base_df df cf gf) (p - 1)))) (Fin 1)"
  using base_lookup_adjacent [OF assms] unfolding monthly_base_def by simp

section \<open>The growth column and the insight block\<close>

lemma pct_change_from_defined:
  "prev \<noteq> 0 \<Longrightarrow> \<forall>x\<in>set (butlast xs). x \<noteq> 0 \<Longrightarrow>
   filter notna (pct_change_from prev xs) = pct_change_from prev xs"
proof (induction xs arbitrary: prev)
  case Nil
  then show ?case by simp
next
  case (Cons x xs)
  have head: "notna (fsub (fdiv (Fin x) (Fin prev)) (Fin 1))"
    using Cons.prems(1) by (simp add: fsub_def)
  show ?case
  proof (cases xs)
    case Nil
    with head show ?thesis by simp
  next
    case (Cons y ys)
    with Cons.prems(2) have "x \<noteq> 0" and "\<forall>z\<in>set (butlast xs). z \<noteq> 0" by auto
    from Cons.IH [OF this] head show ?thesis by simp
  qed
qed

lemma tl_pct_change_defined:
  assumes "\<forall>x\<in>set (butlast xs). x \<noteq> 0"
  shows "filter notna (tl (pct_change xs)) = tl (pct_change xs)"
proof (cases xs)
  case Nil
  then show ?thesis by simp
next
  case (Cons x rest)
  show ?thesis
  proof (cases rest)
    case Nil
    with Cons show ?thesis by simp
  next
    case (Cons y ys)
    with assms \<open>xs = x # rest\<close> have "x \<noteq> 0" and "\<forall>z\<in>set (butlast rest). z \<noteq> 0" by auto
    from pct_change_from_defined [OF this] \<open>xs = x # rest\<close> show ?thesis by simp
  qed
qed

lemma hd_pct_change: "xs \<noteq> [] \<Longrightarrow> hd (pct_change xs) = NaN"
  by (cases xs) simp_all

lemma filter_notna_pct_change: "filter notna (pct_change xs) = filter notna (tl (pct_change xs))"
  by (cases xs) simp_all

lemma length_aggregate: "length (aggregate rows) = card (Month_Period ` set rows)"
proof -
  have "length (aggregate rows) = length (map fst (aggregate rows))" by simp
  also have "\<dots> = length (remdups (map Month_Period rows))"
    by (simp only: aggregate_keys length_sort)
  also have "\<dots> = card (set (map Month_Period rows))"
    by (rule length_remdups_card_conv)
  finally show ?thesis by simp
qed

lemma length_sales_le_base:
  "length (monthly_sales df cf gf mf) \<le> length (monthly_base df cf gf)"
proof -
  have "Month_Period ` set (filtered_df df cf gf mf) \<subseteq> Month_Period ` set (base_df df cf gf)"
    using filtered_subset_base [of df cf gf mf] by blast
  then have "card (Month_Period ` set (filtered_df df cf gf mf))
               \<le> card (Month_Period ` set (base_df df cf gf))"
    by (intro card_mono) simp_all
  moreover have "length (monthly_base df cf gf) = length (aggregate (base_df df cf gf))"
    using arg_cong [OF with_growth_periods [of "aggregate (base_df df cf gf)"], of length]
    by (simp add: monthly_base_def)
  ultimately show ?thesis
    by (simp add: monthly_sales_def length_aggregate)
qed

lemma base_growth_column:
  "map Growth_Rate (monthly_base df cf gf) = pct_change (map base_Total_Amount (monthly_base df cf gf))"
  unfolding monthly_base_def by (simp only: with_growth_rates with_growth_amounts)

lemma insights_Some:
  assumes "2 \<le> length (monthly_sales df cf gf mf)"
  shows "dashboard_insights df cf gf mf =
           Some \<lparr>revenue_std = std (map snd (monthly_sales df cf gf mf)),
                 avg_growth_rate = fmul (mean_skipna (map Growth_Rate (monthly_base df cf gf))) (Fin 100),
                 trend = (if fgt (fmul (mean_skipna (map Growth_Rate (monthly_base df cf gf))) (Fin 100)) (Fin 0)
                          then ''positive'' else ''negative''),
                 stability = (if flt (std (map snd (monthly_sales df cf gf mf)))
                                     (mean (map snd (monthly_sales df cf gf mf)))
                              then ''stable'' else ''fluctuating'')\<rparr>"
  using assms by (simp add: dashboard_insights_def insights_of_def Let_def)

lemma insights_Some_iff:
  "(\<exists>i. dashboard_insights df cf gf mf = Some i) \<longleftrightarrow> 2 \<le> length (monthly_sales df cf gf mf)"
  by (simp add: dashboard_insights_def insights_of_def Let_def)

lemma fgt_percent: "fgt (fmul m (Fin 100)) (Fin 0) = fgt m (Fin 0)"
  by (cases m) (simp_all add: fgt_def signed_inf_def zero_less_mult_iff)

lemma std_sample:
  assumes "2 \<le> length xs"
  shows "std xs = Fin (sqrt (sample_variance xs))"
proof -
  from assms have "real (length xs - 1) = real (length xs) - 1"
    by (simp add: of_nat_diff)
  with assms show ?thesis
    by (simp add: std_def sample_variance_def arithmetic_mean_def Let_def)
qed

lemma sample_variance_pair: "sample_variance [a, b] = (b - a)\<^sup>2 / 2"
  by (simp add: sample_variance_def arithmetic_mean_def power2_eq_square field_simps)

lemma population_variance_pair: "population_variance [a, b] = (b - a)\<^sup>2 / 4"
  by (simp add: population_variance_def arithmetic_mean_def power2_eq_square field_simps)

lemma sqrt_sample_variance_pair: "sqrt (sample_variance [a, b]) = \<bar>b - a\<bar> / sqrt 2"
  by (simp add: sample_variance_pair real_sqrt_divide)

lemma sample_differs_from_population:
  assumes "a \<noteq> b"
  shows "sqrt (sample_variance [a, b]) \<noteq> sqrt (population_variance [a, b])"
proof
  assume "sqrt (sample_variance [a, b]) = sqrt (population_variance [a, b])"
  then have "(b - a)\<^sup>2 / 2 = (b - a)\<^sup>2 / 4"
    by (simp add: sample_variance_pair population_variance_pair)
  then have "(b - a)\<^sup>2 = 0" by simp
  with assms show False by simp
qed

section \<open>Properties of binary64 rounding\<close>

lemma bit_length_bounds: "0 < n \<Longrightarrow> 2 ^ (bit_length n - 1) \<le> n \<and> n < 2 ^ bit_length n"
proof (induction n rule: bit_length.induct)
  case (1 n)
  show ?case
  proof (cases "n div 2 = 0")
    case True
    with 1 have "n = 1" by (auto simp: div_eq_0_iff)
    then show ?thesis by (simp add: bit_length.simps [of "Suc 0"] bit_length.simps [of 0])
  next
    case False
    with 1 have ih: "2 ^ (bit_length (n div 2) - 1) \<le> n div 2" "n div 2 < 2 ^ bit_length (n div 2)"
      by auto
    from False have pos: "0 < bit_length (n div 2)"
      by (simp add: bit_length.simps [of "n div 2"])
    from 1 have bl: "bit_length n = Suc (bit_length (n div 2))"
      by (simp add: bit_length.simps [of n])
    from pos have "(2::nat) ^ bit_length (n div 2) = 2 * 2 ^ (bit_length (n div 2) - 1)"
      by (cases "bit_length (n div 2)") simp_all
    with ih(1) have "2 ^ bit_length (n div 2) \<le> n" by simp
    moreover from ih(2) have "n < 2 * 2 ^ bit_length (n div 2)" by simp
    ultimately show ?thesis by (simp add: bl)
  qed
qed

lemma bit_length_eqI:
  assumes "2 ^ k \<le> n" and "n < 2 ^ Suc k"
  shows "bit_length n = Suc k"
proof -
  from assms(1) have pos: "0 < n" by (cases "n = 0") simp_all
  from bit_length_bounds [OF pos]
  have lo: "2 ^ (bit_length n - 1) \<le> n" and hi: "n < 2 ^ bit_length n" by simp_all
  from lo assms(2) have "(2::nat) ^ (bit_length n - 1) < 2 ^ Suc k" by (rule le_less_trans)
  then have a: "bit_length n - 1 < Suc k" by (simp only: power_strict_increasing_iff [of 2] one_less_numeral_iff semiring_norm)
  from assms(1) hi have "(2::nat) ^ k < 2 ^ bit_length n" by (rule le_less_trans)
  then have b: "k < bit_length n" by (simp only: power_strict_increasing_iff [of 2] one_less_numeral_iff semiring_norm)
  from a b show ?thesis by simp
qed

lemma exponent_nonneg:
  assumes "2 ^ k \<le> \<bar>x\<bar>" and "\<bar>x\<bar> < 2 ^ Suc k"
  shows "exponent x = int k"
proof -
  have one: "(1::real) \<le> 2 ^ k" by simp
  with assms(1) have ge1: "1 \<le> \<bar>x\<bar>" by linarith
  let ?n = "nat \<lfloor>\<bar>x\<bar>\<rfloor>"
  have "(2::int) ^ k \<le> \<lfloor>\<bar>x\<bar>\<rfloor>"
    using assms(1) by (simp add: le_floor_iff)
  then have lo: "2 ^ k \<le> ?n"
    by (metis nat_mono nat_numeral nat_power_eq zero_le_numeral)
  have "\<lfloor>\<bar>x\<bar>\<rfloor> < (2::int) ^ Suc k"
    using assms(2) by (simp add: floor_less_iff)
  then have hi: "?n < 2 ^ Suc k"
    by (metis nat_less_iff of_nat_numeral of_nat_power zero_le_floor abs_ge_zero)
  from bit_length_eqI [OF lo hi] ge1 show ?thesis by (simp add: exponent_def)
qed

lemma exponent_neg:
  assumes "1 / 2 ^ Suc k \<le> \<bar>x\<bar>" and "\<bar>x\<bar> < 1 / 2 ^ k"
  shows "exponent x = - int (Suc k)"
proof -
  have "(1::real) / 2 ^ k \<le> 1" by simp
  with assms(2) have lt1: "\<not> 1 \<le> \<bar>x\<bar>" by linarith
  have "(0::real) < 1 / 2 ^ Suc k" by simp
  with assms(1) have xpos: "0 < \<bar>x\<bar>" by linarith
  let ?y = "1 / \<bar>x\<bar>"
  from assms(2) xpos have ylo: "2 ^ k < ?y"
    by (simp add: field_simps)
  from assms(1) xpos have yhi: "?y \<le> 2 ^ Suc k"
    by (simp add: field_simps)
  let ?m = "nat (\<lceil>?y\<rceil> - 1)"
  have "(2::int) ^ k < \<lceil>?y\<rceil>"
    using ylo by (simp add: less_ceiling_iff)
  then have "(2::int) ^ k \<le> \<lceil>?y\<rceil> - 1" by simp
  then have lo: "2 ^ k \<le> ?m"
    by (metis nat_mono nat_numeral nat_power_eq zero_le_numeral)
  have "\<lceil>?y\<rceil> \<le> (2::int) ^ Suc k"
    using yhi by (simp add: ceiling_le_iff)
  then have "\<lceil>?y\<rceil> - 1 < (2::int) ^ Suc k" by simp
  moreover have "0 \<le> \<lceil>?y\<rceil> - 1" using \<open>(2::int) ^ k \<le> \<lceil>?y\<rceil> - 1\<close>
    by (smt (verit) zero_le_power)
  ultimately have hi: "?m < 2 ^ Suc k"
    by (metis nat_less_iff of_nat_numeral of_nat_power)
  from bit_length_eqI [OF lo hi] lt1 show ?thesis by (simp add: exponent_def)
qed

lemma round_half_even_near:
  assumes "\<bar>q - of_int n\<bar> < 1 / 2"
  shows "round_half_even q = n"
proof (cases "of_int n \<le> q")
  case True
  with assms have "\<lfloor>q\<rfloor> = n" by (intro floor_unique) linarith+
  with assms True show ?thesis by (simp add: round_half_even_def Let_def)
next
  case False
  from assms False have lo: "of_int (n - 1) \<le> q" and hi: "q < of_int (n - 1) + 1"
    by simp_all
  then have fl: "\<lfloor>q\<rfloor> = n - 1" by (rule floor_unique)
  from assms False have "1 / 2 < q - of_int (n - 1)" by simp
  with fl show ?thesis by (simp add: round_half_even_def Let_def)
qed

lemma round_half_even_tie_up:
  assumes "q = of_int n - 1 / 2" and "even n"
  shows "round_half_even q = n"
proof -
  from assms(1) have fl: "\<lfloor>q\<rfloor> = n - 1" by (intro floor_unique) simp_all
  from assms(1) have "q - of_int (n - 1) = 1 / 2" by simp
  with fl assms(2) show ?thesis by (simp add: round_half_even_def Let_def)
qed

lemma round_half_even_tie_down:
  assumes "q = of_int n + 1 / 2" and "even n"
  shows "round_half_even q = n"
proof -
  from assms(1) have fl: "\<lfloor>q\<rfloor> = n" by (intro floor_unique) simp_all
  from assms(1) have "q - of_int n = 1 / 2" by simp
  with fl assms(2) show ?thesis by (simp add: round_half_even_def Let_def)
qed

lemma binary64_eqI:
  assumes "x \<noteq> 0" and "exponent x = e" and "- 1022 \<le> e" and "e < 1023"
    and "round_half_even (x / 2 powi (e - 52)) = n"
    and "\<bar>n\<bar> \<le> 2 ^ 53"
  shows "binary64 x = Fin (of_int n * 2 powi (e - 52))"
proof -
  have "\<bar>real_of_int n * 2 powi (e - 52)\<bar> = \<bar>real_of_int n\<bar> * 2 powi (e - 52)"
    by (simp add: abs_mult)
  also have "\<dots> \<le> 2 ^ 53 * 2 powi (e - 52)"
  proof (rule mult_right_mono)
    from assms(6) have "real_of_int \<bar>n\<bar> \<le> real_of_int (2 ^ 53)" by (simp only: of_int_le_iff)
    then show "\<bar>real_of_int n\<bar> \<le> 2 ^ 53" by simp
  qed simp
  also have "\<dots> = 2 powi (e + 1)"
    using power_int_add [of "2::real" 53 "e - 52"] by (simp add: algebra_simps)
  also from assms(4) have "\<dots> < 2 powi 1024"
    by (intro power_int_strict_increasing) simp_all
  finally have "\<not> 2 powi 1024 \<le> \<bar>real_of_int n * 2 powi (e - 52)\<bar>" by simp
  moreover from assms(3) have "max e (- 1022) = e" by simp
  ultimately show ?thesis
    using assms(1,2,5) by (simp add: binary64_def Let_def del: max.absorb1 max.absorb2 max.absorb3 max.absorb4)
qed

lemma notna_binary64: "notna (binary64 x)"
  by (simp add: binary64_def Let_def signed_inf_def)

lemma binary64_of_nat:
  assumes "m < 2 ^ 53"
  shows "binary64 (real m) = Fin (real m)"
proof (cases "m = 0")
  case True
  then show ?thesis by (simp add: binary64_def)
next
  case False
  then have pos: "0 < m" by simp
  define k where "k = bit_length m - 1"
  from pos have "bit_length m \<noteq> 0" by (simp add: bit_length.simps [of m])
  then have bl: "bit_length m = Suc k" by (simp add: k_def)
  from bit_length_bounds [OF pos] have lo: "2 ^ k \<le> m" by (simp add: k_def)
  from bit_length_bounds [OF pos] have "m < 2 ^ bit_length m" by simp
  then have hi: "m < 2 ^ Suc k" by (simp only: bl)
  from lo assms have "(2::nat) ^ k < 2 ^ 53" by (rule le_less_trans)
  then have k53: "k < 53"
    by (simp only: power_strict_increasing_iff [of 2] one_less_numeral_iff semiring_norm)
  define d where "d = 52 - k"
  from k53 have kd: "int k - 52 = - int d" by (simp add: d_def)
  have ulp: "(2::real) powi (int k - 52) = 1 / 2 ^ d"
    by (simp only: kd power_int_minus power_int_of_nat) (simp add: field_simps)
  have "real (2 ^ k) \<le> real m" using lo by (simp only: of_nat_le_iff)
  then have rlo: "2 ^ k \<le> \<bar>real m\<bar>" by simp
  have "real m < real (2 ^ Suc k)" using hi by (simp only: of_nat_less_iff)
  then have rhi: "\<bar>real m\<bar> < 2 ^ Suc k" by simp
  have e: "exponent (real m) = int k" by (rule exponent_nonneg [OF rlo rhi])
  let ?n = "int (m * 2 ^ d)"
  have q: "real m / 2 powi (int k - 52) = of_int ?n" by (simp add: ulp)
  have r: "round_half_even (real m / 2 powi (int k - 52)) = ?n"
    by (rule round_half_even_near) (simp add: q)
  from k53 have "Suc k + d = 53" by (simp add: d_def)
  then have "(2::nat) ^ 53 = 2 ^ Suc k * 2 ^ d" by (simp only: power_add [symmetric])
  moreover from hi have "m * 2 ^ d \<le> 2 ^ Suc k * 2 ^ d"
    by (intro mult_right_mono) simp_all
  ultimately have "m * 2 ^ d \<le> 2 ^ 53" by (simp only:)
  then have "int (m * 2 ^ d) \<le> int (2 ^ 53)" by (simp only: of_nat_le_iff)
  then have n: "\<bar>?n\<bar> \<le> 2 ^ 53" by simp
  from pos have nz: "real m \<noteq> 0" by simp
  from k53 have "int k < 1023" by simp
  from binary64_eqI [OF nz e _ this r n]
  have "binary64 (real m) = Fin (of_int ?n * 2 powi (int k - 52))" by simp
  then show ?thesis by (simp add: ulp)
qed

lemma third: "binary64 (1 / 3) = Fin (6004799503160661 / 2 ^ 54)"
proof -
  have e: "exponent (1 / 3) = - 2" using exponent_neg [of 1 "1 / 3"] by simp
  have r: "round_half_even ((1 / 3) / 2 powi (- 2 - 52)) = 6004799503160661"
    by (rule round_half_even_near) (simp add: power_int_minus field_simps)
  from binary64_eqI [OF _ e _ _ r] show ?thesis by (simp add: power_int_minus field_simps)
qed

lemma third_minus_one:
  "binary64 (6004799503160661 / 2 ^ 54 - 1) = Fin (- (6004799503160662 / 2 ^ 53))"
proof -
  have "exponent (6004799503160661 / 2 ^ 54 - 1) = - int (Suc 0)"
    by (rule exponent_neg) simp_all
  then have e: "exponent (6004799503160661 / 2 ^ 54 - 1) = - 1" by simp
  have r: "round_half_even ((6004799503160661 / 2 ^ 54 - 1) / 2 powi (- 1 - 52)) = - 6004799503160662"
    by (rule round_half_even_tie_down) (simp_all add: power_int_minus field_simps)
  from binary64_eqI [OF _ e _ _ r] show ?thesis by (simp add: power_int_minus field_simps)
qed

lemma one_plus:
  "binary64 (1 + - (6004799503160662 / 2 ^ 53)) = Fin (3002399751580330 / 2 ^ 53)"
proof -
  have "exponent (1 + - (6004799503160662 / 2 ^ 53)) = - int (Suc 1)"
    by (rule exponent_neg) simp_all
  then have e: "exponent (1 + - (6004799503160662 / 2 ^ 53)) = - 2" by simp
  have r: "round_half_even ((1 + - (6004799503160662 / 2 ^ 53)) / 2 powi (- 2 - 52)) = 6004799503160660"
    by (rule round_half_even_near) (simp add: power_int_minus field_simps)
  from binary64_eqI [OF _ e _ _ r] show ?thesis by (simp add: power_int_minus field_simps)
qed

lemma times_three:
  "binary64 (3 * (3002399751580330 / 2 ^ 53)) = Fin (1 - 1 / 2 ^ 52)"
proof -
  have "exponent (3 * (3002399751580330 / 2 ^ 53)) = - int (Suc 0)"
    by (rule exponent_neg) simp_all
  then have e: "exponent (3 * (3002399751580330 / 2 ^ 53)) = - 1" by simp
  have r: "round_half_even ((3 * (3002399751580330 / 2 ^ 53)) / 2 powi (- 1 - 52)) = 9007199254740990"
    by (rule round_half_even_near) (simp add: power_int_minus field_simps)
  from binary64_eqI [OF _ e _ _ r] show ?thesis by (simp add: power_int_minus field_simps)
qed

lemma forecast_of_thirds:
  "fmul64 (Fin 3) (fadd64 (Fin 1) (fsub64 (fdiv64 (Fin 1) (Fin 3)) (Fin 1))) = Fin (1 - 1 / 2 ^ 52)"
  using third third_minus_one one_plus times_three
  by (simp add: fmul64_def fadd64_def fsub64_def fdiv64_def fsub_def)

lemma three_quarters: "binary64 (3 / 4) = Fin (3 / 4)"
proof -
  have "exponent (3 / 4) = - int (Suc 0)" by (rule exponent_neg) simp_all
  then have e: "exponent (3 / 4) = - 1" by simp
  have r: "round_half_even ((3 / 4) / 2 powi (- 1 - 52)) = 6755399441055744"
    by (rule round_half_even_near) (simp add: power_int_minus field_simps)
  from binary64_eqI [OF _ e _ _ r] show ?thesis by (simp add: power_int_minus field_simps)
qed

lemma minus_quarter: "binary64 (- (1 / 4)) = Fin (- (1 / 4))"
proof -
  have "exponent (- (1 / 4)) = - int (Suc 1)" by (rule exponent_neg) simp_all
  then have e: "exponent (- (1 / 4)) = - 2" by simp
  have r: "round_half_even ((- (1 / 4)) / 2 powi (- 2 - 52)) = - 4503599627370496"
    by (rule round_half_even_near) (simp add: power_int_minus field_simps)
  from binary64_eqI [OF _ e _ _ r] show ?thesis by (simp add: power_int_minus field_simps)
qed

section \<open>The binary64 growth column and forecast\<close>

lemma length_pct_change_from64: "length (pct_change_from64 a xs) = length xs"
  by (induction xs arbitrary: a) simp_all

lemma length_pct_change64: "length (pct_change64 xs) = length xs"
  by (cases xs) (simp_all add: length_pct_change_from64)

lemma with_growth_periods64: "map base_Month_Period (with_growth64 t) = map fst t"
  unfolding with_growth64_def
  by (rule nth_equalityI) (simp_all add: length_pct_change64 split_beta)

lemma with_growth_amounts64: "map base_Total_Amount (with_growth64 t) = map snd t"
  unfolding with_growth64_def
  by (rule nth_equalityI) (simp_all add: length_pct_change64 split_beta)

lemma with_growth_rates64: "map Growth_Rate (with_growth64 t) = pct_change64 (map snd t)"
  unfolding with_growth64_def
  by (rule nth_equalityI) (simp_all add: length_pct_change64 split_beta)

lemma growth_from_adjacent64:
  fixes t :: "(month_period \<times> real) list"
  shows "sorted_wrt (<) (q # map fst t) \<Longrightarrow> (p - 1, a) \<in> set ((q, a0) # t) \<Longrightarrow>
         (p, b) \<in> set t \<Longrightarrow>
         ((p, b), fsub64 (fdiv64 (Fin b) (Fin a)) (Fin 1))
           \<in> set (zip t (pct_change_from64 a0 (map snd t)))"
proof (induction t arbitrary: q a0)
  case Nil
  then show ?case by simp
next
  case (Cons e t)
  obtain q' b' where e: "e = (q', b')" by (cases e)
  from Cons.prems(1) e have qq': "q < q'" and above: "\<forall>k\<in>fst ` set t. q' < k"
    and sorted': "sorted_wrt (<) (q' # map fst t)" by auto
  show ?case
  proof (cases "(p, b) = e")
    case True
    with e have pq: "p = q'" and bb: "b = b'" by auto
    have "(p - 1, a) = (q, a0)"
    proof (rule ccontr)
      assume "(p - 1, a) \<noteq> (q, a0)"
      with Cons.prems(2) e have "(p - 1, a) = (q', b') \<or> (p - 1, a) \<in> set t" by auto
      then show False
      proof
        assume "(p - 1, a) = (q', b')" with pq show False by simp
      next
        assume "(p - 1, a) \<in> set t"
        then have "p - 1 \<in> fst ` set t" by force
        with above pq show False by auto
      qed
    qed
    then have "a = a0" by simp
    with e pq bb show ?thesis by simp
  next
    case False
    with Cons.prems(3) have pt: "(p, b) \<in> set t" by simp
    then have "p \<in> fst ` set t" by force
    with above have q'p: "q' < p" by auto
    have "(p - 1, a) \<noteq> (q, a0)"
    proof
      assume "(p - 1, a) = (q, a0)"
      with qq' q'p show False by simp
    qed
    with Cons.prems(2) e have "(p - 1, a) \<in> set ((q', b') # t)" by auto
    from Cons.IH [OF sorted' this pt]
    have "((p, b), fsub64 (fdiv64 (Fin b) (Fin a)) (Fin 1))
            \<in> set (zip t (pct_change_from64 b' (map snd t)))" .
    with e show ?thesis by simp
  qed
qed

lemma with_growth_adjacent64:
  assumes "sorted_wrt (<) (map fst t)" and "(p - 1, a) \<in> set t" and "(p, b) \<in> set t"
  shows "\<lparr>base_Month_Period = p, base_Total_Amount = b,
          Growth_Rate = fsub64 (fdiv64 (Fin b) (Fin a)) (Fin 1)\<rparr> \<in> set (with_growth64 t)"
proof (cases t)
  case Nil
  with assms show ?thesis by simp
next
  case (Cons e t')
  obtain q a0 where e: "e = (q, a0)" by (cases e)
  from assms(1) Cons e have sorted': "sorted_wrt (<) (q # map fst t')"
    and above: "\<forall>k\<in>fst ` set t'. q < k" by auto
  have "(p, b) \<noteq> (q, a0)"
  proof
    assume eq: "(p, b) = (q, a0)"
    from assms(2) Cons e have "(p - 1, a) = (q, a0) \<or> (p - 1, a) \<in> set t'" by auto
    then show False
    proof
      assume "(p - 1, a) = (q, a0)" with eq show False by simp
    next
      assume "(p - 1, a) \<in> set t'"
      then have "p - 1 \<in> fst ` set t'" by force
      with above eq show False by auto
    qed
  qed
  with assms(3) Cons e have pt: "(p, b) \<in> set t'" by auto
  from assms(2) Cons e have "(p - 1, a) \<in> set ((q, a0) # t')" by simp
  from growth_from_adjacent64 [OF sorted' this pt]
  have "((p, b), fsub64 (fdiv64 (Fin b) (Fin a)) (Fin 1))
          \<in> set (zip t' (pct_change_from64 a0 (map snd t')))" .
  then have "((p, b), fsub64 (fdiv64 (Fin b) (Fin a)) (Fin 1))
               \<in> set (zip t (pct_change64 (map snd t)))"
    using Cons e by simp
  then show ?thesis
    unfolding with_growth64_def by force
qed

lemma base_lookup_absent64:
  assumes "p \<notin> Month_Period ` set rows"
  shows "filter (\<lambda>b. base_Month_Period b = p) (with_growth64 (aggregate rows)) = []"
proof -
  have "set (map base_Month_Period (with_growth64 (aggregate rows))) = Month_Period ` set rows"
    by (simp only: with_growth_periods64 set_map aggregate_key_set)
  with assms have "\<forall>b\<in>set (with_growth64 (aggregate rows)). base_Month_Period b \<noteq> p"
    by auto
  then show ?thesis by (simp add: filter_empty_conv)
qed

lemma with_growth_member64:
  assumes "(p, a) \<in> set t"
  shows "\<exists>g. \<lparr>base_Month_Period = p, base_Total_Amount = a, Growth_Rate = g\<rparr> \<in> set (with_growth64 t)"
proof -
  from assms obtain i where i: "i < length t" and ti: "t ! i = (p, a)"
    by (auto simp: in_set_conv_nth)
  let ?z = "zip t (pct_change64 (map snd t))"
  from i have "i < length ?z" by (simp add: length_pct_change64)
  then have "?z ! i \<in> set ?z" by (rule nth_mem)
  moreover from i ti have "?z ! i = ((p, a), pct_change64 (map snd t) ! i)"
    by (simp add: length_pct_change64)
  ultimately have "((p, a), pct_change64 (map snd t) ! i) \<in> set ?z" by simp
  then have "\<lparr>base_Month_Period = p, base_Total_Amount = a,
               Growth_Rate = pct_change64 (map snd t) ! i\<rparr> \<in> set (with_growth64 t)"
    unfolding with_growth64_def by force
  then show ?thesis ..
qed

lemma base_lookup_single64:
  assumes "x \<in> set (with_growth64 (aggregate rows))"
  shows "filter (\<lambda>b. base_Month_Period b = base_Month_Period x) (with_growth64 (aggregate rows)) = [x]"
proof (rule filter_unique_key [OF _ assms])
  have "distinct (map fst (aggregate rows))"
    using aggregate_strict_sorted [of rows] by (simp add: strict_sorted_iff)
  then show "distinct (map base_Month_Period (with_growth64 (aggregate rows)))"
    by (simp only: with_growth_periods64)
qed

lemma base_lookup_present64:
  assumes "p \<in> Month_Period ` set rows"
  shows "\<exists>g. filter (\<lambda>b. base_Month_Period b = p) (with_growth64 (aggregate rows))
              = [\<lparr>base_Month_Period = p, base_Total_Amount = month_total rows p, Growth_Rate = g\<rparr>]"
proof -
  from aggregate_member [OF assms] with_growth_member64
  obtain g where "\<lparr>base_Month_Period = p, base_Total_Amount = month_total rows p, Growth_Rate = g\<rparr>
                    \<in> set (with_growth64 (aggregate rows))" by blast
  from base_lookup_single64 [OF this] show ?thesis by auto
qed

lemma base_lookup_adjacent64:
  assumes "p - 1 \<in> Month_Period ` set rows" and "p \<in> Month_Period ` set rows"
  shows "filter (\<lambda>b. base_Month_Period b = p) (with_growth64 (aggregate rows))
           = [\<lparr>base_Month_Period = p, base_Total_Amount = month_total rows p,
               Growth_Rate = fsub64 (fdiv64 (Fin (month_total rows p)) (Fin (month_total rows (p - 1)))) (Fin 1)\<rparr>]"
proof -
  from with_growth_adjacent64 [OF aggregate_strict_sorted aggregate_member [OF assms(1)] aggregate_member [OF assms(2)]]
  have "\<lparr>base_Month_Period = p, base_Total_Amount = month_total rows p,
          Growth_Rate = fsub64 (fdiv64 (Fin (month_total rows p)) (Fin (month_total rows (p - 1)))) (Fin 1)\<rparr>
          \<in> set (with_growth64 (aggregate rows))" .
  from base_lookup_single64 [OF this] show ?thesis by simp
qed

lemma base_period_set64:
  "set (map base_Month_Period (monthly_base64 df cf gf)) = Month_Period ` set (base_df df cf gf)"
  unfolding monthly_base64_def by (simp only: with_growth_periods64 set_map aggregate_key_set)

lemma base_lookup_nonempty_iff64:
  "filter (\<lambda>b. base_Month_Period b = p) (monthly_base64 df cf gf) \<noteq> [] \<longleftrightarrow>
   p \<in> Month_Period ` set (base_df df cf gf)"
proof -
  have "filter (\<lambda>b. base_Month_Period b = p) (monthly_base64 df cf gf) \<noteq> [] \<longleftrightarrow>
        p \<in> set (map base_Month_Period (monthly_base64 df cf gf))"
    by (auto simp: filter_empty_conv)
  then show ?thesis by (simp only: base_period_set64)
qed

lemma prev_row_amount64:
  assumes "p \<in> Month_Period ` set (base_df df cf gf)"
  shows "base_Total_Amount (hd (filter (\<lambda>b. base_Month_Period b = p) (monthly_base64 df cf gf)))
           = month_total (base_df df cf gf) p"
  using base_lookup_present64 [OF assms] unfolding monthly_base64_def by auto

lemma curr_row_growth64:
  assumes "p - 1 \<in> Month_Period ` set (base_df df cf gf)"
    and "p \<in> Month_Period ` set (base_df df cf gf)"
  shows "Growth_Rate (hd (filter (\<lambda>b. base_Month_Period b = p) (monthly_base64 df cf gf)))
           = fsub64 (fdiv64 (Fin (month_total (base_df df cf gf) p))
                        (Fin (month_total (base_df df cf gf) (p - 1)))) (Fin 1)"
  using base_lookup_adjacent64 [OF assms] unfolding monthly_base64_def by simp

lemma notna_growth64:
  assumes "prev \<noteq> 0"
  shows "notna (fsub64 (fdiv64 (Fin cur) (Fin prev)) (Fin 1))"
proof -
  from assms have "fdiv64 (Fin cur) (Fin prev) = binary64 (cur / prev)"
    by (simp add: fdiv64_def)
  moreover have "notna (fsub64 v (Fin 1))" if "notna v" for v
    using that by (cases v) (simp_all add: fsub64_def fsub_def notna_binary64)
  ultimately show ?thesis by (simp add: notna_binary64)
qed

lemma next_month_revenue64:
  fixes df :: "row list" and cf gf mf :: "string list"
  defines "p \<equiv> fst (last (monthly_sales df cf gf mf))"
  defines "prev \<equiv> month_total (base_df df cf gf) (p - 1)"
    and "cur \<equiv> month_total (base_df df cf gf) p"
  assumes nonempty: "monthly_sales df cf gf mf \<noteq> []"
    and pm: "p - 1 \<in> Month_Period ` set (base_df df cf gf)"
    and cm: "p \<in> Month_Period ` set (base_df df cf gf)"
    and nz: "prev \<noteq> 0"
  shows "next_month_revenue (dashboard_kpis64 df cf gf mf)
           = fmul64 (Fin prev) (fadd64 (Fin 1) (fsub64 (fdiv64 (Fin cur) (Fin prev)) (Fin 1)))"
proof -
  let ?base = "monthly_base64 df cf gf"
  let ?prev_row = "filter (\<lambda>b. base_Month_Period b = p - 1) ?base"
  let ?curr_row = "filter (\<lambda>b. base_Month_Period b = p) ?base"
  have pa: "base_Total_Amount (hd ?prev_row) = prev"
    unfolding prev_def by (rule prev_row_amount64 [OF pm])
  have g: "Growth_Rate (hd ?curr_row) = fsub64 (fdiv64 (Fin cur) (Fin prev)) (Fin 1)"
    unfolding prev_def cur_def by (rule curr_row_growth64 [OF pm cm])
  have pne: "?prev_row \<noteq> []" and cne: "?curr_row \<noteq> []"
    using pm cm by (simp_all only: base_lookup_nonempty_iff64)
  from notna_growth64 [OF nz] g have "notna (Growth_Rate (hd ?curr_row))" by simp
  with nonempty pne cne pa g show ?thesis
    unfolding dashboard_kpis64_def kpi_calculations64_def p_def
    by (simp add: Let_def)
qed

lemma whole_sum:
  assumes "\<forall>r\<in>set rows. 0 \<le> f r \<and> of_int \<lfloor>f r\<rfloor> = (f r :: real)"
  shows "\<exists>m::nat. sum_list (map f (filter P rows)) = real m \<and> real m \<le> sum_list (map f rows)"
  using assms
proof (induction rows)
  case Nil
  then show ?case by simp
next
  case (Cons r rows)
  then obtain m :: nat where m: "sum_list (map f (filter P rows)) = real m"
    and le: "real m \<le> sum_list (map f rows)" by auto
  from Cons.prems have nn: "0 \<le> f r" and fl: "of_int \<lfloor>f r\<rfloor> = f r" by simp_all
  from nn have "0 \<le> \<lfloor>f r\<rfloor>" by simp
  then have "real (nat \<lfloor>f r\<rfloor>) = of_int \<lfloor>f r\<rfloor>" by simp
  with fl have fr: "f r = real (nat \<lfloor>f r\<rfloor>)" by linarith
  show ?case
  proof (cases "P r")
    case True
    with m fr have "sum_list (map f (filter P (r # rows))) = real (nat \<lfloor>f r\<rfloor> + m)"
      by simp
    moreover from le fr have "real (nat \<lfloor>f r\<rfloor> + m) \<le> sum_list (map f (r # rows))"
      by simp
    ultimately show ?thesis by blast
  next
    case False
    with m have "sum_list (map f (filter P (r # rows))) = real m" by simp
    moreover from le nn have "real m \<le> sum_list (map f (r # rows))" by simp
    ultimately show ?thesis by blast
  qed
qed

lemma month_total_representable:
  assumes "whole_amounts rows"
  shows "binary64 (month_total rows p) = Fin (month_total rows p)"
proof -
  from assms have w: "\<forall>r\<in>set rows. 0 \<le> Total_Amount r \<and> of_int \<lfloor>Total_Amount r\<rfloor> = Total_Amount r"
    and b: "sum_list (map Total_Amount rows) < 2 ^ 53"
    by (simp_all add: whole_amounts_def)
  from whole_sum [OF w, of "\<lambda>r. Month_Period r = p"] obtain m :: nat
    where m: "month_total rows p = real m" and le: "real m \<le> sum_list (map Total_Amount rows)"
    by (auto simp: month_total_def)
  from le b have "real m < real (2 ^ 53)" by simp
  then have "m < 2 ^ 53" by (simp only: of_nat_less_iff)
  from binary64_of_nat [OF this] m show ?thesis by simp
qed

section \<open>Claims\<close>

text \<open>
  C6. For every table of transactions and every filter predicate, the periods of the
  monthly aggregation are strictly ascending in chronological order, hence without a
  duplicate. This holds of the aggregation under any predicate, and so of the display
  series and of the base series.
\<close>

theorem aggregate_periods_strictly_ascending:
  "sorted_wrt (<) (map fst (aggregate (filter P df))) \<and>
   distinct (map fst (aggregate (filter P df))) \<and>
   sorted_wrt (<) (map fst (monthly_sales df cf gf mf)) \<and>
   distinct (map fst (monthly_sales df cf gf mf)) \<and>
   sorted_wrt (<) (map base_Month_Period (monthly_base df cf gf)) \<and>
   distinct (map base_Month_Period (monthly_base df cf gf))"
proof -
  have strict: "sorted_wrt (<) (map fst (aggregate rows))" for rows
    by (rule aggregate_strict_sorted)
  then have dist: "distinct (map fst (aggregate rows))" for rows
    by (simp add: strict_sorted_iff)
  have base: "map base_Month_Period (monthly_base df cf gf) = map fst (aggregate (base_df df cf gf))"
    unfolding monthly_base_def by (rule with_growth_periods)
  show ?thesis
    unfolding base monthly_sales_def using strict dist by blast
qed

text \<open>
  C10. When the display series is not empty, its last period (the selected month) is a
  period of the base series: every displayed transaction also passes the category and
  gender filters that define the base series. The lookup of the selected month in the base
  series is therefore never empty.
\<close>

theorem selected_month_in_base:
  assumes "monthly_sales df cf gf mf \<noteq> []"
  shows "fst (last (monthly_sales df cf gf mf)) \<in> set (map base_Month_Period (monthly_base df cf gf)) \<and>
         filter (\<lambda>b. base_Month_Period b = fst (last (monthly_sales df cf gf mf)))
                (monthly_base df cf gf) \<noteq> []"
proof -
  let ?p = "fst (last (monthly_sales df cf gf mf))"
  from selected_month_in_base_df [OF assms]
  have mem: "?p \<in> Month_Period ` set (base_df df cf gf)" .
  then have "?p \<in> set (map base_Month_Period (monthly_base df cf gf))"
    by (simp only: base_period_set)
  moreover from base_lookup_present [OF mem]
  have "filter (\<lambda>b. base_Month_Period b = ?p) (monthly_base df cf gf) \<noteq> []"
    unfolding monthly_base_def by auto
  ultimately show ?thesis by blast
qed

text \<open>
  An instance: January and March only, display restricted to March. The selected month
  is found in the base series; the month before it is not.
\<close>

theorem selected_month_in_base_witness:
  "monthly_sales example_gap_df [''Beauty''] [''Male''] [''March''] \<noteq> [] \<and>
   fst (last (monthly_sales example_gap_df [''Beauty''] [''Male''] [''March''])) = 638 \<and>
   filter (\<lambda>b. base_Month_Period b = 638) (monthly_base example_gap_df [''Beauty''] [''Male'']) \<noteq> [] \<and>
   filter (\<lambda>b. base_Month_Period b = 638 - 1) (monthly_base example_gap_df [''Beauty''] [''Male'']) = []"
proof -
  have h: "monthly_sales example_gap_df [''Beauty''] [''Male''] [''March''] \<noteq> []"
    by code_simp
  have sel: "fst (last (monthly_sales example_gap_df [''Beauty''] [''Male''] [''March''])) = 638"
    by code_simp
  have prev: "filter (\<lambda>b. base_Month_Period b = 638 - 1) (monthly_base example_gap_df [''Beauty''] [''Male'']) = []"
    by code_simp
  from selected_month_in_base [OF h] sel h prev show ?thesis by simp
qed

text \<open>
  C4. When the display series is not empty and the month before the selected month is
  not a period of the base series, the previous and next month revenue and the expected
  growth stay at zero and both labels stay \<open>N/A\<close>; the function returns a value (there is
  no failure), and the total and average revenue are the sum and the mean of the display
  series as in every other case.
\<close>

theorem missing_previous_month_keeps_defaults:
  assumes "monthly_sales df cf gf mf \<noteq> []"
    and "fst (last (monthly_sales df cf gf mf)) - 1 \<notin> set (map base_Month_Period (monthly_base df cf gf))"
  shows "dashboard_kpis df cf gf mf =
           \<lparr>total_revenue = sum_list (map snd (monthly_sales df cf gf mf)),
            avg_monthly_revenue = mean (map snd (monthly_sales df cf gf mf)),
            previous_month_revenue = 0,
            next_month_revenue = Fin 0,
            expected_growth = Fin 0,
            previous_month_label = ''N/A'',
            next_month_label = ''N/A''\<rparr>"
proof -
  from assms(2)
  have "\<forall>b\<in>set (monthly_base df cf gf). base_Month_Period b \<noteq> fst (last (monthly_sales df cf gf mf)) - 1"
    by (force simp: image_iff)
  then have "filter (\<lambda>b. base_Month_Period b = fst (last (monthly_sales df cf gf mf)) - 1)
               (monthly_base df cf gf) = []"
    by (simp add: filter_empty_conv)
  with assms(1) show ?thesis
    by (simp add: dashboard_kpis_def kpi_calculations_def Let_def)
qed

text \<open>An instance: January and March only, so February is missing before March.\<close>

theorem missing_previous_month_keeps_defaults_witness:
  "monthly_sales example_gap_df [''Beauty''] [''Male''] [''January'', ''March''] \<noteq> [] \<and>
   fst (last (monthly_sales example_gap_df [''Beauty''] [''Male''] [''January'', ''March''])) - 1
     \<notin> set (map base_Month_Period (monthly_base example_gap_df [''Beauty''] [''Male''])) \<and>
   dashboard_kpis example_gap_df [''Beauty''] [''Male''] [''January'', ''March''] =
     \<lparr>total_revenue = 1900, avg_monthly_revenue = Fin 950, previous_month_revenue = 0,
      next_month_revenue = Fin 0, expected_growth = Fin 0,
      previous_month_label = ''N/A'', next_month_label = ''N/A''\<rparr>"
proof -
  have h1: "monthly_sales example_gap_df [''Beauty''] [''Male''] [''January'', ''March''] \<noteq> []"
    by code_simp
  have h2: "fst (last (monthly_sales example_gap_df [''Beauty''] [''Male''] [''January'', ''March''])) - 1
     \<notin> set (map base_Month_Period (monthly_base example_gap_df [''Beauty''] [''Male'']))"
    by code_simp
  have tot: "sum_list (map snd (monthly_sales example_gap_df [''Beauty''] [''Male''] [''January'', ''March''])) = 1900"
    by code_simp
  have avg: "mean (map snd (monthly_sales example_gap_df [''Beauty''] [''Male''] [''January'', ''March''])) = Fin 950"
    by code_simp
  from missing_previous_month_keeps_defaults [OF h1 h2] h1 h2 tot avg show ?thesis
    by simp
qed

text \<open>
  C2. When the display series is not empty, the month before the selected month and the
  selected month are both found in the base series, and the growth rate of the selected
  month's base row is not NaN, then the previous month revenue is the base sum of the
  previous month, the next month revenue is the previous month revenue times one plus the
  growth rate, and the expected growth is the growth rate times 100. In every other case the
  next month revenue and the expected growth are zero.
\<close>

theorem forecast_formula:
  fixes df :: "row list" and cf gf mf :: "string list"
  defines "sales \<equiv> monthly_sales df cf gf mf"
    and "base \<equiv> monthly_base df cf gf"
    and "k \<equiv> dashboard_kpis df cf gf mf"
  defines "prev_row \<equiv> filter (\<lambda>b. base_Month_Period b = fst (last sales) - 1) base"
    and "curr_row \<equiv> filter (\<lambda>b. base_Month_Period b = fst (last sales)) base"
  defines "growth_rate \<equiv> Growth_Rate (hd curr_row)"
  shows "(sales \<noteq> [] \<and> prev_row \<noteq> [] \<and> curr_row \<noteq> [] \<and> notna growth_rate \<longrightarrow>
            previous_month_revenue k = month_total (base_df df cf gf) (fst (last sales) - 1) \<and>
            next_month_revenue k = fmul (Fin (previous_month_revenue k)) (fadd (Fin 1) growth_rate) \<and>
            expected_growth k = fmul growth_rate (Fin 100)) \<and>
         (\<not> (sales \<noteq> [] \<and> prev_row \<noteq> [] \<and> curr_row \<noteq> [] \<and> notna growth_rate) \<longrightarrow>
            next_month_revenue k = Fin 0 \<and> expected_growth k = Fin 0)"
proof (intro conjI impI)
  assume h: "sales \<noteq> [] \<and> prev_row \<noteq> [] \<and> curr_row \<noteq> [] \<and> notna growth_rate"
  then have prev: "previous_month_revenue k = base_Total_Amount (hd prev_row)"
    unfolding k_def dashboard_kpis_def kpi_calculations_def sales_def base_def
      prev_row_def curr_row_def growth_rate_def
    by (simp add: Let_def)
  from h have "fst (last sales) - 1 \<in> Month_Period ` set (base_df df cf gf)"
    unfolding prev_row_def base_def by (simp only: base_lookup_nonempty_iff)
  from prev_row_amount [OF this] prev
  show "previous_month_revenue k = month_total (base_df df cf gf) (fst (last sales) - 1)"
    unfolding prev_row_def base_def by simp
  from h show "next_month_revenue k = fmul (Fin (previous_month_revenue k)) (fadd (Fin 1) growth_rate)"
    unfolding k_def dashboard_kpis_def kpi_calculations_def sales_def base_def
      prev_row_def curr_row_def growth_rate_def
    by (simp add: Let_def)
  from h show "expected_growth k = fmul growth_rate (Fin 100)"
    unfolding k_def dashboard_kpis_def kpi_calculations_def sales_def base_def
      prev_row_def curr_row_def growth_rate_def
    by (simp add: Let_def)
next
  assume h: "\<not> (sales \<noteq> [] \<and> prev_row \<noteq> [] \<and> curr_row \<noteq> [] \<and> notna growth_rate)"
  then show "next_month_revenue k = Fin 0"
    unfolding k_def dashboard_kpis_def kpi_calculations_def sales_def base_def
      prev_row_def curr_row_def growth_rate_def
    by (auto simp add: Let_def)
  from h show "expected_growth k = Fin 0"
    unfolding k_def dashboard_kpis_def kpi_calculations_def sales_def base_def
      prev_row_def curr_row_def growth_rate_def
    by (auto simp add: Let_def)
qed


text \<open>
  C1, as amended. Two runs with the same data and the same category and gender filters,
  whose display series are both non-empty and end at the same period, have the same expected
  growth and the same next month revenue, whatever their month filters are.
\<close>

theorem same_selected_month_same_forecast:
  assumes "monthly_sales df cf gf mf1 \<noteq> []" and "monthly_sales df cf gf mf2 \<noteq> []"
    and "fst (last (monthly_sales df cf gf mf1)) = fst (last (monthly_sales df cf gf mf2))"
  shows "expected_growth (dashboard_kpis df cf gf mf1) = expected_growth (dashboard_kpis df cf gf mf2) \<and>
         next_month_revenue (dashboard_kpis df cf gf mf1) = next_month_revenue (dashboard_kpis df cf gf mf2)"
  using assms unfolding dashboard_kpis_def kpi_calculations_def
  by (simp add: Let_def)

text \<open>An instance: the three months of the example, all displayed.\<close>

theorem forecast_formula_witness:
  "monthly_sales example_df [''Beauty''] [''Male''] [''January'', ''February'', ''March''] \<noteq> [] \<and>
   notna (Growth_Rate (hd (filter (\<lambda>b. base_Month_Period b = 638)
                                  (monthly_base example_df [''Beauty''] [''Male''])))) \<and>
   previous_month_revenue
     (dashboard_kpis example_df [''Beauty''] [''Male''] [''January'', ''February'', ''March'']) = 1200 \<and>
   next_month_revenue
     (dashboard_kpis example_df [''Beauty''] [''Male''] [''January'', ''February'', ''March'']) = Fin 900 \<and>
   expected_growth
     (dashboard_kpis example_df [''Beauty''] [''Male''] [''January'', ''February'', ''March'']) = Fin (- 25)"
proof -
  let ?mf = "[''January'', ''February'', ''March'']"
  let ?sales = "monthly_sales example_df [''Beauty''] [''Male''] ?mf"
  let ?base = "monthly_base example_df [''Beauty''] [''Male'']"
  have sel: "fst (last ?sales) = 638" by code_simp
  have h1: "?sales \<noteq> []" by code_simp
  have h2: "filter (\<lambda>b. base_Month_Period b = 638 - 1) ?base \<noteq> []" by code_simp
  have h3: "filter (\<lambda>b. base_Month_Period b = 638) ?base \<noteq> []" by code_simp
  have g: "Growth_Rate (hd (filter (\<lambda>b. base_Month_Period b = 638) ?base)) = Fin (- (1 / 4))"
    by code_simp
  have tot: "month_total (base_df example_df [''Beauty''] [''Male'']) (638 - 1) = 1200"
    by code_simp
  from forecast_formula [of example_df "[''Beauty'']" "[''Male'']" ?mf] sel h1 h2 h3 g tot
  show ?thesis by simp
qed

text \<open>An instance: all three months against March alone.\<close>

theorem same_selected_month_same_forecast_witness:
  "monthly_sales example_df [''Beauty''] [''Male''] [''January'', ''February'', ''March''] \<noteq> [] \<and>
   monthly_sales example_df [''Beauty''] [''Male''] [''March''] \<noteq> [] \<and>
   fst (last (monthly_sales example_df [''Beauty''] [''Male''] [''January'', ''February'', ''March'']))
     = fst (last (monthly_sales example_df [''Beauty''] [''Male''] [''March''])) \<and>
   expected_growth (dashboard_kpis example_df [''Beauty''] [''Male''] [''January'', ''February'', ''March''])
     = expected_growth (dashboard_kpis example_df [''Beauty''] [''Male''] [''March'']) \<and>
   next_month_revenue (dashboard_kpis example_df [''Beauty''] [''Male''] [''January'', ''February'', ''March''])
     = next_month_revenue (dashboard_kpis example_df [''Beauty''] [''Male''] [''March''])"
proof -
  have h1: "monthly_sales example_df [''Beauty''] [''Male''] [''January'', ''February'', ''March''] \<noteq> []"
    by code_simp
  have h2: "monthly_sales example_df [''Beauty''] [''Male''] [''March''] \<noteq> []"
    by code_simp
  have h3: "fst (last (monthly_sales example_df [''Beauty''] [''Male''] [''January'', ''February'', ''March'']))
     = fst (last (monthly_sales example_df [''Beauty''] [''Male''] [''March'']))"
    by code_simp
  from same_selected_month_same_forecast [OF h1 h2 h3] h1 h2 h3 show ?thesis by blast
qed

text \<open>
  C1 as stated fails: narrowing the month filter from January to March down to January and
  February moves the selected month from March to February, and the expected growth changes
  from -25 to 20, the next month revenue from 900 to 1200.
\<close>

theorem month_filter_changes_forecast:
  "set [''January'', ''February''] \<subseteq> set [''January'', ''February'', ''March''] \<and>
   set (monthly_sales example_df [''Beauty''] [''Male''] [''January'', ''February''])
     \<subseteq> set (monthly_sales example_df [''Beauty''] [''Male''] [''January'', ''February'', ''March'']) \<and>
   expected_growth (dashboard_kpis example_df [''Beauty''] [''Male''] [''January'', ''February'', ''March''])
     = Fin (- 25) \<and>
   expected_growth (dashboard_kpis example_df [''Beauty''] [''Male''] [''January'', ''February''])
     = Fin 20 \<and>
   next_month_revenue (dashboard_kpis example_df [''Beauty''] [''Male''] [''January'', ''February'', ''March''])
     = Fin 900 \<and>
   next_month_revenue (dashboard_kpis example_df [''Beauty''] [''Male''] [''January'', ''February''])
     = Fin 1200 \<and>
   expected_growth (dashboard_kpis example_df [''Beauty''] [''Male''] [''January'', ''February'', ''March''])
     \<noteq> expected_growth (dashboard_kpis example_df [''Beauty''] [''Male''] [''January'', ''February'']) \<and>
   next_month_revenue (dashboard_kpis example_df [''Beauty''] [''Male''] [''January'', ''February'', ''March''])
     \<noteq> next_month_revenue (dashboard_kpis example_df [''Beauty''] [''Male''] [''January'', ''February''])"
  by code_simp

text \<open>
  C3. With no category selected the display series is empty: the total revenue is 0, the
  previous and next month values are 0 and both labels are \<open>N/A\<close>, but the average monthly
  revenue is the mean of an empty column, NaN, not 0 and not a marker of missing data.
\<close>

theorem empty_display_average_is_nan:
  "monthly_sales example_df [] [''Male''] [''January'', ''February'', ''March''] = [] \<and>
   dashboard_kpis example_df [] [''Male''] [''January'', ''February'', ''March''] =
     \<lparr>total_revenue = 0, avg_monthly_revenue = NaN, previous_month_revenue = 0,
      next_month_revenue = Fin 0, expected_growth = Fin 0,
      previous_month_label = ''N/A'', next_month_label = ''N/A''\<rparr>"
  by code_simp

text \<open>
  C9, as amended. When the display series is not empty, the previous and the selected month
  are both periods of the base series, the base sum of the previous month is not zero, the
  amounts are whole numbers (none negative, with a total below \<open>2 ^ 53\<close>), and both the
  quotient of the selected month's base sum by the previous month's and that quotient minus
  one are binary64 numbers, then the next month revenue computed in binary64 is exactly the
  base sum of the selected month, the previous month revenue being the base sum of the
  previous month.
\<close>

theorem forecast_reproduces_selected_month:
  fixes df :: "row list" and cf gf mf :: "string list"
  defines "p \<equiv> fst (last (monthly_sales df cf gf mf))"
  defines "prev \<equiv> month_total (base_df df cf gf) (p - 1)"
    and "cur \<equiv> month_total (base_df df cf gf) p"
  assumes nonempty: "monthly_sales df cf gf mf \<noteq> []"
    and prev_present: "p - 1 \<in> set (map base_Month_Period (monthly_base64 df cf gf))"
    and curr_present: "p \<in> set (map base_Month_Period (monthly_base64 df cf gf))"
    and prev_nonzero: "prev \<noteq> 0"
    and whole: "whole_amounts (base_df df cf gf)"
    and ratio: "binary64 (cur / prev) = Fin (cur / prev)"
    and ratio_minus_one: "binary64 (cur / prev - 1) = Fin (cur / prev - 1)"
  shows "next_month_revenue (dashboard_kpis64 df cf gf mf) = Fin cur \<and>
         base_Total_Amount (hd (filter (\<lambda>b. base_Month_Period b = p) (monthly_base64 df cf gf))) = cur \<and>
         previous_month_revenue (dashboard_kpis64 df cf gf mf) = prev"
proof -
  from prev_present have pm: "p - 1 \<in> Month_Period ` set (base_df df cf gf)"
    by (simp only: base_period_set64)
  from curr_present have cm: "p \<in> Month_Period ` set (base_df df cf gf)"
    by (simp only: base_period_set64)
  have rc: "binary64 cur = Fin cur"
    unfolding cur_def by (rule month_total_representable [OF whole])
  from prev_nonzero have "prev * (cur / prev) = cur" by simp
  with prev_nonzero ratio ratio_minus_one rc
  have "fmul64 (Fin prev) (fadd64 (Fin 1) (fsub64 (fdiv64 (Fin cur) (Fin prev)) (Fin 1))) = Fin cur"
    by (simp add: fmul64_def fadd64_def fsub64_def fdiv64_def fsub_def)
  with next_month_revenue64 [OF nonempty pm [unfolded p_def] cm [unfolded p_def] prev_nonzero [unfolded prev_def p_def]]
  have a: "next_month_revenue (dashboard_kpis64 df cf gf mf) = Fin cur"
    by (simp add: p_def prev_def cur_def)
  have b: "base_Total_Amount (hd (filter (\<lambda>b. base_Month_Period b = p) (monthly_base64 df cf gf))) = cur"
    unfolding cur_def by (rule prev_row_amount64 [OF cm])
  have pa: "base_Total_Amount (hd (filter (\<lambda>b. base_Month_Period b = p - 1) (monthly_base64 df cf gf))) = prev"
    unfolding prev_def by (rule prev_row_amount64 [OF pm])
  have pne: "filter (\<lambda>b. base_Month_Period b = p - 1) (monthly_base64 df cf gf) \<noteq> []"
    and cne: "filter (\<lambda>b. base_Month_Period b = p) (monthly_base64 df cf gf) \<noteq> []"
    using pm cm by (simp_all only: base_lookup_nonempty_iff64)
  from nonempty pne cne pa have c: "previous_month_revenue (dashboard_kpis64 df cf gf mf) = prev"
    unfolding dashboard_kpis64_def kpi_calculations64_def p_def
    by (simp add: Let_def)
  from a b c show ?thesis by blast
qed

text \<open>
  An instance: the three months of the example, all displayed. From February's 1200 to
  March's 900 the quotient is 3/4 and the growth -1/4, both binary64 numbers.
\<close>

theorem forecast_reproduces_selected_month_witness:
  "monthly_sales example_df [''Beauty''] [''Male''] [''January'', ''February'', ''March''] \<noteq> [] \<and>
   fst (last (monthly_sales example_df [''Beauty''] [''Male''] [''January'', ''February'', ''March''])) = 638 \<and>
   month_total (base_df example_df [''Beauty''] [''Male'']) 637 = 1200 \<and>
   month_total (base_df example_df [''Beauty''] [''Male'']) 638 = 900 \<and>
   whole_amounts (base_df example_df [''Beauty''] [''Male'']) \<and>
   binary64 (900 / 1200) = Fin (900 / 1200) \<and>
   binary64 (900 / 1200 - 1) = Fin (900 / 1200 - 1) \<and>
   next_month_revenue
     (dashboard_kpis64 example_df [''Beauty''] [''Male''] [''January'', ''February'', ''March'']) = Fin 900"
proof -
  let ?mf = "[''January'', ''February'', ''March'']"
  let ?sales = "monthly_sales example_df [''Beauty''] [''Male''] ?mf"
  let ?rows = "base_df example_df [''Beauty''] [''Male'']"
  have sel: "fst (last ?sales) = 638" by code_simp
  have h1: "?sales \<noteq> []" by code_simp
  have keys: "map fst (aggregate ?rows) = [636, 637, 638]" by code_simp
  have periods: "map base_Month_Period (monthly_base64 example_df [''Beauty''] [''Male'']) = [636, 637, 638]"
    unfolding monthly_base64_def by (simp only: with_growth_periods64 keys)
  have prev: "month_total ?rows 637 = 1200" by code_simp
  have cur: "month_total ?rows 638 = 900" by code_simp
  have whole: "whole_amounts ?rows" by code_simp
  have r1: "binary64 (900 / 1200) = Fin (900 / 1200)" using three_quarters by simp
  have r2: "binary64 (900 / 1200 - 1) = Fin (900 / 1200 - 1)" using minus_quarter by simp
  have "next_month_revenue (dashboard_kpis64 example_df [''Beauty''] [''Male''] ?mf)
          = Fin (month_total ?rows (fst (last ?sales)))"
    using forecast_reproduces_selected_month [of example_df "[''Beauty'']" "[''Male'']" ?mf]
      h1 whole r1 r2
    by (simp add: sel periods prev cur)
  with sel h1 prev cur whole r1 r2 show ?thesis by simp
qed

text \<open>
  C9 as stated fails: with the base sums 3 in January and 1 in February, and both months
  displayed, every hypothesis of the claim holds, the growth of February is 1/3 rounded,
  minus one, rounded, and the next month revenue is \<open>1 - 2 ^ -52\<close>, printed
  \<^verbatim>\<open>0.9999999999999998\<close>, not the 1 of February.
\<close>

theorem forecast_misses_selected_month:
  "monthly_sales example_thirds_df [''Beauty''] [''Male''] [''January'', ''February''] \<noteq> [] \<and>
   fst (last (monthly_sales example_thirds_df [''Beauty''] [''Male''] [''January'', ''February''])) = 637 \<and>
   map base_Month_Period (monthly_base64 example_thirds_df [''Beauty''] [''Male'']) = [636, 637] \<and>
   map base_Total_Amount (monthly_base64 example_thirds_df [''Beauty''] [''Male'']) = [3, 1] \<and>
   whole_amounts (base_df example_thirds_df [''Beauty''] [''Male'']) \<and>
   next_month_revenue
     (dashboard_kpis64 example_thirds_df [''Beauty''] [''Male''] [''January'', ''February''])
     = Fin (1 - 1 / 2 ^ 52) \<and>
   next_month_revenue
     (dashboard_kpis64 example_thirds_df [''Beauty''] [''Male''] [''January'', ''February''])
     \<noteq> Fin 1"
proof -
  let ?mf = "[''January'', ''February'']"
  let ?sales = "monthly_sales example_thirds_df [''Beauty''] [''Male''] ?mf"
  let ?rows = "base_df example_thirds_df [''Beauty''] [''Male'']"
  have sel: "fst (last ?sales) = 637" by code_simp
  have h1: "?sales \<noteq> []" by code_simp
  have agg: "aggregate ?rows = [(636, 3), (637, 1)]" by code_simp
  have periods: "map base_Month_Period (monthly_base64 example_thirds_df [''Beauty''] [''Male'']) = [636, 637]"
    unfolding monthly_base64_def by (simp only: with_growth_periods64 agg) simp
  have amounts: "map base_Total_Amount (monthly_base64 example_thirds_df [''Beauty''] [''Male'']) = [3, 1]"
    unfolding monthly_base64_def by (simp only: with_growth_amounts64 agg) simp
  have pm: "fst (last ?sales) - 1 \<in> Month_Period ` set ?rows" by code_simp
  have cm: "fst (last ?sales) \<in> Month_Period ` set ?rows" by code_simp
  have prev: "month_total ?rows (fst (last ?sales) - 1) = 3" by code_simp
  have cur: "month_total ?rows (fst (last ?sales)) = 1" by code_simp
  have whole: "whole_amounts ?rows" by code_simp
  from prev have nz: "month_total ?rows (fst (last ?sales) - 1) \<noteq> 0" by simp
  from next_month_revenue64 [OF h1 pm cm nz]
  have "next_month_revenue (dashboard_kpis64 example_thirds_df [''Beauty''] [''Male''] ?mf)
          = Fin (1 - 1 / 2 ^ 52)"
    by (simp only: prev cur forecast_of_thirds)
  with sel h1 periods amounts whole show ?thesis by simp
qed

text \<open>
  C5, as amended. Whenever the insight block computes it (the display series has at least
  two periods, hence the base series too), the average growth rate is 100 times the mean of
  the defined growth rates of the base series: the sum of the rates that are not NaN,
  divided by their number, times 100. The rate of the first period is NaN and is in neither
  the sum nor the count. When no base sum before the last one is zero, the defined rates are
  exactly the rates of the periods after the first.
\<close>

theorem avg_growth_rate_is_percent_mean:
  fixes df :: "row list" and cf gf mf :: "string list"
  defines "rates \<equiv> map Growth_Rate (monthly_base df cf gf)"
  defines "defined_rates \<equiv> filter notna (tl rates)"
  assumes some: "dashboard_insights df cf gf mf = Some i"
  shows "2 \<le> length rates \<and> hd rates = NaN \<and>
         filter notna rates = defined_rates \<and>
         avg_growth_rate i =
           fmul (if defined_rates = [] then NaN
                 else fdiv (fsum defined_rates) (Fin (real (length defined_rates))))
                (Fin 100) \<and>
         ((\<forall>x\<in>set (butlast (map base_Total_Amount (monthly_base df cf gf))). x \<noteq> 0) \<longrightarrow>
            defined_rates = tl rates \<and> length defined_rates = length rates - 1)"
proof -
  let ?totals = "map base_Total_Amount (monthly_base df cf gf)"
  from some have two: "2 \<le> length (monthly_sales df cf gf mf)"
    using insights_Some_iff [of df cf gf mf] by blast
  with length_sales_le_base [of df cf gf mf] have len: "2 \<le> length rates"
    by (simp add: rates_def)
  have col: "rates = pct_change ?totals"
    unfolding rates_def by (rule base_growth_column)
  from len col have ne: "?totals \<noteq> []" by auto
  have h: "hd rates = NaN"
    unfolding col by (rule hd_pct_change [OF ne])
  have f: "filter notna rates = defined_rates"
    unfolding defined_rates_def col by (rule filter_notna_pct_change)
  from insights_Some [OF two] some
  have "avg_growth_rate i = fmul (mean_skipna (map Growth_Rate (monthly_base df cf gf))) (Fin 100)"
    by auto
  then have a: "avg_growth_rate i =
           fmul (if defined_rates = [] then NaN
                 else fdiv (fsum defined_rates) (Fin (real (length defined_rates))))
                (Fin 100)"
    using f by (simp add: mean_skipna_def rates_def Let_def)
  have d: "defined_rates = tl rates \<and> length defined_rates = length rates - 1"
    if nz: "\<forall>x\<in>set (butlast ?totals). x \<noteq> 0"
  proof -
    have "defined_rates = tl rates"
      unfolding defined_rates_def col by (rule tl_pct_change_defined [OF nz])
    then show ?thesis by simp
  qed
  from len h f a d show ?thesis by blast
qed

text \<open>An instance: the three months of the example; the mean is taken over two rates.\<close>

theorem avg_growth_rate_is_percent_mean_witness:
  "2 \<le> length (monthly_sales example_df [''Beauty''] [''Male''] [''January'', ''February'', ''March'']) \<and>
   butlast (map base_Total_Amount (monthly_base example_df [''Beauty''] [''Male''])) = [1000, 1200] \<and>
   map Growth_Rate (monthly_base example_df [''Beauty''] [''Male''])
     = [NaN, Fin (200 / 1000), Fin (- 300 / 1200)] \<and>
   map_option avg_growth_rate
     (dashboard_insights example_df [''Beauty''] [''Male''] [''January'', ''February'', ''March''])
     = Some (fmul (fdiv (fsum [Fin (200 / 1000), Fin (- 300 / 1200)]) (Fin 2)) (Fin 100))"
proof -
  let ?mf = "[''January'', ''February'', ''March'']"
  let ?totals = "map base_Total_Amount (monthly_base example_df [''Beauty''] [''Male''])"
  let ?rates = "map Growth_Rate (monthly_base example_df [''Beauty''] [''Male''])"
  have two: "2 \<le> length (monthly_sales example_df [''Beauty''] [''Male''] ?mf)" by code_simp
  have bl: "butlast ?totals = [1000, 1200]" by code_simp
  then have nz: "\<forall>x\<in>set (butlast ?totals). x \<noteq> 0" by simp
  have rates: "?rates = [NaN, Fin (200 / 1000), Fin (- 300 / 1200)]" by code_simp
  from insights_Some [OF two] obtain i
    where some: "dashboard_insights example_df [''Beauty''] [''Male''] ?mf = Some i" by blast
  from avg_growth_rate_is_percent_mean [OF some] nz
  have "avg_growth_rate i =
           fmul (if filter notna (tl ?rates) = [] then NaN
                 else fdiv (fsum (filter notna (tl ?rates))) (Fin (real (length (filter notna (tl ?rates))))))
                (Fin 100)"
    by blast
  then have "avg_growth_rate i = fmul (fdiv (fsum [Fin (200 / 1000), Fin (- 300 / 1200)]) (Fin 2)) (Fin 100)"
    by (simp add: rates)
  with some two bl rates show ?thesis by simp
qed

text \<open>
  C5 as stated fails: the average growth rate is a percentage, not the mean of the defined
  growth rates. In the example it is below -2 (it is -2.5) while the mean of the two defined
  rates is above -1 (it is -0.025, the value the specification's example gives).
\<close>

theorem avg_growth_rate_is_not_the_mean:
  "map_option (\<lambda>i. flt (avg_growth_rate i) (Fin (- 2)))
     (dashboard_insights example_df [''Beauty''] [''Male''] [''January'', ''February'', ''March''])
     = Some True \<and>
   flt (Fin (- 1))
       (mean_skipna (tl (map Growth_Rate (monthly_base example_df [''Beauty''] [''Male''])))) \<and>
   map_option avg_growth_rate
     (dashboard_insights example_df [''Beauty''] [''Male''] [''January'', ''February'', ''March''])
     \<noteq> Some (mean_skipna (tl (map Growth_Rate (monthly_base example_df [''Beauty''] [''Male'']))))"
proof -
  let ?mf = "[''January'', ''February'', ''March'']"
  have two: "2 \<le> length (monthly_sales example_df [''Beauty''] [''Male''] ?mf)" by code_simp
  have col: "map Growth_Rate (monthly_base example_df [''Beauty''] [''Male''])
               = [NaN, Fin (1 / 5), Fin (- (1 / 4))]" by code_simp
  show ?thesis
    by (simp add: insights_Some [OF two] col mean_skipna_def fsum_def)
qed

text \<open>
  C7. When the display series has at least two periods, the insight block returns a trend,
  which is \<open>positive\<close> if and only if the average growth rate is greater than zero, and
  \<open>negative\<close> otherwise; an average growth rate equal to zero gives \<open>negative\<close>. The
  average growth rate, a percentage, is greater than zero exactly when the mean of the
  defined growth rates is.
\<close>

theorem trend_positive_iff:
  assumes "2 \<le> length (monthly_sales df cf gf mf)"
  shows "\<exists>i. dashboard_insights df cf gf mf = Some i \<and>
             (trend i = ''positive'' \<longleftrightarrow> fgt (avg_growth_rate i) (Fin 0)) \<and>
             (trend i = ''negative'' \<longleftrightarrow> \<not> fgt (avg_growth_rate i) (Fin 0)) \<and>
             (fgt (avg_growth_rate i) (Fin 0)
                \<longleftrightarrow> fgt (mean_skipna (map Growth_Rate (monthly_base df cf gf))) (Fin 0)) \<and>
             (avg_growth_rate i = Fin 0 \<longrightarrow> trend i = ''negative'')"
proof -
  let ?m = "mean_skipna (map Growth_Rate (monthly_base df cf gf))"
  let ?agr = "fmul ?m (Fin 100)"
  let ?t = "if fgt ?agr (Fin 0) then ''positive'' else ''negative''"
  have a: "?t = ''positive'' \<longleftrightarrow> fgt ?agr (Fin 0)" by simp
  have b: "?t = ''negative'' \<longleftrightarrow> \<not> fgt ?agr (Fin 0)" by simp
  have c: "fgt ?agr (Fin 0) \<longleftrightarrow> fgt ?m (Fin 0)" by (rule fgt_percent)
  have d: "?agr = Fin 0 \<longrightarrow> ?t = ''negative''"
  proof
    assume "?agr = Fin 0"
    then have "\<not> fgt ?agr (Fin 0)" by (simp add: fgt_def)
    then show "?t = ''negative''" by simp
  qed
  from a b c d show ?thesis
    unfolding insights_Some [OF assms] by (intro exI conjI) (rule refl, simp_all only: insights.simps)
qed

text \<open>An instance: two equal months, whose only defined growth rate is zero.\<close>

theorem trend_positive_iff_witness:
  "2 \<le> length (monthly_sales example_flat_df [''Beauty''] [''Male''] [''January'', ''February'']) \<and>
   map_option avg_growth_rate
     (dashboard_insights example_flat_df [''Beauty''] [''Male''] [''January'', ''February''])
     = Some (Fin 0) \<and>
   map_option trend
     (dashboard_insights example_flat_df [''Beauty''] [''Male''] [''January'', ''February''])
     = Some ''negative''"
proof -
  let ?mf = "[''January'', ''February'']"
  have two: "2 \<le> length (monthly_sales example_flat_df [''Beauty''] [''Male''] ?mf)" by code_simp
  have col: "map Growth_Rate (monthly_base example_flat_df [''Beauty''] [''Male'']) = [NaN, Fin 0]"
    by code_simp
  from trend_positive_iff [OF two] obtain i
    where some: "dashboard_insights example_flat_df [''Beauty''] [''Male''] ?mf = Some i"
      and zero: "avg_growth_rate i = Fin 0 \<longrightarrow> trend i = ''negative''" by blast
  from insights_Some [OF two] some
  have "avg_growth_rate i
          = fmul (mean_skipna (map Growth_Rate (monthly_base example_flat_df [''Beauty''] [''Male''])))
                 (Fin 100)" by auto
  then have a: "avg_growth_rate i = Fin 0"
    by (simp add: col mean_skipna_def fsum_def)
  with zero have "trend i = ''negative''" by blast
  with a some two show ?thesis by simp
qed

text \<open>
  C8. When the display series has at least two periods, the revenue standard deviation is
  the square root of the sample variance of the monthly sums (divisor \<open>n - 1\<close>). For a
  series of two periods with sums \<open>a\<close> and \<open>b\<close> it is \<open>\<bar>b - a\<bar> / sqrt 2\<close>, and when
  \<open>a\<close> and \<open>b\<close> differ it is not the square root of the population variance
  (divisor \<open>n\<close>). Arithmetic is exact here.
\<close>

theorem revenue_std_is_sample_std:
  fixes df :: "row list" and cf gf mf :: "string list"
  defines "xs \<equiv> map snd (monthly_sales df cf gf mf)"
  assumes two: "2 \<le> length (monthly_sales df cf gf mf)"
  shows "\<exists>i. dashboard_insights df cf gf mf = Some i \<and>
             revenue_std i = Fin (sqrt (sample_variance xs)) \<and>
             (\<forall>a b. xs = [a, b] \<longrightarrow> revenue_std i = Fin (\<bar>b - a\<bar> / sqrt 2)) \<and>
             (\<forall>a b. xs = [a, b] \<and> a \<noteq> b \<longrightarrow> revenue_std i \<noteq> Fin (sqrt (population_variance xs)))"
proof -
  from two have len: "2 \<le> length xs" by (simp add: xs_def)
  have s: "std xs = Fin (sqrt (sample_variance xs))" by (rule std_sample [OF len])
  have p: "std xs = Fin (\<bar>b - a\<bar> / sqrt 2)" if "xs = [a, b]" for a b
    using s that by (simp only: sqrt_sample_variance_pair)
  have q: "std xs \<noteq> Fin (sqrt (population_variance xs))" if "xs = [a, b] \<and> a \<noteq> b" for a b
  proof -
    from that have eq: "xs = [a, b]" and ne: "a \<noteq> b" by simp_all
    from sample_differs_from_population [OF ne] eq
    have "sqrt (sample_variance xs) \<noteq> sqrt (population_variance xs)" by simp
    with s show ?thesis by simp
  qed
  have r: "revenue_std (the (dashboard_insights df cf gf mf)) = std xs"
    unfolding xs_def by (simp add: insights_Some [OF two])
  from insights_Some [OF two] obtain i where some: "dashboard_insights df cf gf mf = Some i" by blast
  with r have ri: "revenue_std i = std xs" by simp
  from some ri s p q show ?thesis by (intro exI [of _ i]) auto
qed

text \<open>An instance: January 1000 and February 1200.\<close>

theorem revenue_std_is_sample_std_witness:
  "2 \<le> length (monthly_sales example_df [''Beauty''] [''Male''] [''January'', ''February'']) \<and>
   map snd (monthly_sales example_df [''Beauty''] [''Male''] [''January'', ''February''])
     = [1000, 1200] \<and>
   map_option revenue_std
     (dashboard_insights example_df [''Beauty''] [''Male''] [''January'', ''February''])
     = Some (Fin (200 / sqrt 2))"
proof -
  let ?mf = "[''January'', ''February'']"
  let ?xs = "map snd (monthly_sales example_df [''Beauty''] [''Male''] ?mf)"
  have two: "2 \<le> length (monthly_sales example_df [''Beauty''] [''Male''] ?mf)" by code_simp
  have xs: "?xs = [1000, 1200]" by code_simp
  from revenue_std_is_sample_std [OF two] obtain i
    where some: "dashboard_insights example_df [''Beauty''] [''Male''] ?mf = Some i"
      and pair: "\<forall>a b. ?xs = [a, b] \<longrightarrow> revenue_std i = Fin (\<bar>b - a\<bar> / sqrt 2)" by blast
  from pair have "?xs = [1000, 1200] \<longrightarrow> revenue_std i = Fin (\<bar>1200 - 1000\<bar> / sqrt 2)"
    by (rule allE) (erule allE)
  with xs have "revenue_std i = Fin (200 / sqrt 2)" by simp
  with some two xs show ?thesis by simp
qed

end
